theory Spec2Isabelle
  imports
    Complex_Main
    "HOL-Library.AList"
    "HOL-Library.Char_ord"
    "HOL-Library.List_Lexorder"
    "HOL-Library.Multiset"
    "HOL-Library.Sublist"
begin

section \<open>Python values and errors\<close>

text \<open>
  The option bags of the services are Python dictionaries decoded from JSON
  (\<^verbatim>\<open>json.loads(options)\<close> in the worker, Firestore documents elsewhere), so a value
  is any JSON value.  Numbers are read as reals: the resolver only compares them and
  passes them on, it never computes with them (NaN and the infinities, which
  \<^verbatim>\<open>json.loads\<close> also accepts, are left out).
\<close>

datatype pyval =
    PNone
  | PBool bool
  | PNum real
  | PStr string
  | PList "pyval list"
  | PDict "(string \<times> pyval) list"

type_synonym pydict = "string \<rightharpoonup> pyval"

datatype error =
    TypeError           \<comment> \<open>an operation on a value of the wrong type, as in \<^verbatim>\<open>max(0.6, "high")\<close>\<close>
  | NotFound            \<comment> \<open>Firestore \<^verbatim>\<open>update\<close> of a document that does not exist\<close>
  | CalledProcessError  \<comment> \<open>\<^verbatim>\<open>subprocess.run(..., check=True)\<close> with a failing ffmpeg\<close>
  | Cv2Error            \<comment> \<open>\<^verbatim>\<open>cv2.imwrite\<close> refusing to write the file\<close>

text \<open>Python truthiness, as used by \<^verbatim>\<open>if user_overrides.get("target_logos"):\<close>.\<close>

fun truthy :: "pyval \<Rightarrow> bool" where
  "truthy PNone = False"
| "truthy (PBool b) = b"
| "truthy (PNum r) = (r \<noteq> 0)"
| "truthy (PStr s) = (s \<noteq> [])"
| "truthy (PList l) = (l \<noteq> [])"
| "truthy (PDict d) = (d \<noteq> [])"

text \<open>\<^verbatim>\<open>d.get(k)\<close> and \<^verbatim>\<open>d.get(k, default)\<close>.\<close>

definition dict_get :: "pydict \<Rightarrow> string \<Rightarrow> pyval" where
  "dict_get d k = (case d k of None \<Rightarrow> PNone | Some v \<Rightarrow> v)"

definition dict_get_default :: "pydict \<Rightarrow> string \<Rightarrow> pyval \<Rightarrow> pyval" where
  "dict_get_default d k dflt = (case d k of None \<Rightarrow> dflt | Some v \<Rightarrow> v)"

text \<open>
  The numeric reading of a value in an ordering comparison with a float: a float or an
  int is itself, a bool is an int (\<^verbatim>\<open>True == 1\<close>), anything else has none and the
  comparison raises \<^verbatim>\<open>TypeError\<close>.
\<close>

fun num_of :: "pyval \<Rightarrow> real option" where
  "num_of (PNum r) = Some r"
| "num_of (PBool b) = Some (if b then 1 else 0)"
| "num_of v = None"

text \<open>
  \<^verbatim>\<open>max(lo, v)\<close> with a float first argument: Python keeps the first argument unless
  \<^verbatim>\<open>v > lo\<close>.  The result is stored in a float field; a bool result is read as
  its number.
\<close>

definition py_max :: "real \<Rightarrow> pyval \<Rightarrow> error + real" where
  "py_max lo v =
     (case num_of v of
        None \<Rightarrow> Inl TypeError
      | Some r \<Rightarrow> Inr (if r > lo then r else lo))"

section \<open>Policy resolver (gpu-worker/config.py)\<close>

datatype AnonymizeMode = BLUR | PIXELATE | BLACK_BOX

text \<open>\<^verbatim>\<open>AnonymizeMode(value)\<close>: the member with that value, \<^verbatim>\<open>ValueError\<close> (here
  \<open>None\<close>) when there is none.\<close>

fun AnonymizeMode_of :: "pyval \<Rightarrow> AnonymizeMode option" where
  "AnonymizeMode_of (PStr s) =
     (if s = ''blur'' then Some BLUR
      else if s = ''pixelate'' then Some PIXELATE
      else if s = ''black_box'' then Some BLACK_BOX
      else None)"
| "AnonymizeMode_of v = None"

record PrivacyConfig =
  target_faces :: bool
  target_plates :: bool
  target_logos :: bool
  target_text :: bool
  mode :: AnonymizeMode
  confidence_threshold :: real
  enable_heuristics :: bool

definition default_config :: PrivacyConfig where
  "default_config =
     \<lparr> target_faces = True, target_plates = True, target_logos = False,
       target_text = False, mode = BLUR, confidence_threshold = 4 / 10,
       enable_heuristics = True \<rparr>"

text \<open>Step 2 of \<^verbatim>\<open>get_config_for_profile\<close>: the profile's mandates.\<close>

definition apply_mandates :: "string \<Rightarrow> pydict \<Rightarrow> PrivacyConfig \<Rightarrow> error + PrivacyConfig" where
  "apply_mandates profile user_overrides cfg =
     (if profile = ''GDPR'' then
        (case py_max (6 / 10) (dict_get_default user_overrides ''confidence_threshold'' (PNum (6 / 10))) of
           Inl e \<Rightarrow> Inl e
         | Inr t \<Rightarrow> Inr (cfg\<lparr>target_faces := True, target_plates := True, target_text := True,
                            confidence_threshold := t\<rparr>))
      else if profile = ''HIPAA_SAFE_HARBOR'' then
        (case py_max (7 / 10) (dict_get_default user_overrides ''confidence_threshold'' (PNum (7 / 10))) of
           Inl e \<Rightarrow> Inl e
         | Inr t \<Rightarrow> Inr (cfg\<lparr>target_faces := True, target_plates := True, target_text := True,
                            target_logos := True, mode := BLACK_BOX,
                            confidence_threshold := t\<rparr>))
      else if profile = ''CCPA'' then
        (case py_max (55 / 100) (dict_get_default user_overrides ''confidence_threshold'' (PNum (55 / 100))) of
           Inl e \<Rightarrow> Inl e
         | Inr t \<Rightarrow> Inr (cfg\<lparr>target_faces := True, target_plates := True,
                            confidence_threshold := t\<rparr>))
      else Inr cfg)"

text \<open>Step 3: the overrides that may add a target.\<close>

definition apply_target_overrides :: "pydict \<Rightarrow> PrivacyConfig \<Rightarrow> PrivacyConfig" where
  "apply_target_overrides user_overrides cfg =
     (let cfg1 = (if truthy (dict_get user_overrides ''target_logos'')
                  then cfg\<lparr>target_logos := True\<rparr> else cfg)
      in if truthy (dict_get user_overrides ''target_text'')
         then cfg1\<lparr>target_text := True\<rparr> else cfg1)"

text \<open>The mode override, with its \<^verbatim>\<open>try: ... except ValueError: pass\<close>.\<close>

definition apply_mode_override :: "string \<Rightarrow> pydict \<Rightarrow> PrivacyConfig \<Rightarrow> PrivacyConfig" where
  "apply_mode_override profile user_overrides cfg =
     (if profile \<noteq> ''HIPAA_SAFE_HARBOR'' then
        (case user_overrides ''mode'' of
           None \<Rightarrow> cfg
         | Some v \<Rightarrow> (case AnonymizeMode_of v of
                       None \<Rightarrow> cfg
                     | Some m \<Rightarrow> cfg\<lparr>mode := m\<rparr>))
      else cfg)"

definition get_config_for_profile :: "string \<Rightarrow> pydict option \<Rightarrow> error + PrivacyConfig" where
  "get_config_for_profile profile user_overrides_arg =
     (let user_overrides = (case user_overrides_arg of None \<Rightarrow> Map.empty | Some d \<Rightarrow> d)
      in case apply_mandates profile user_overrides default_config of
           Inl e \<Rightarrow> Inl e
         | Inr cfg \<Rightarrow>
             Inr (apply_mode_override profile user_overrides
                    (apply_target_overrides user_overrides cfg)))"

section \<open>Job store, blob store and the trace of effects\<close>

datatype status = QUEUED | CHUNKING | PROCESSING | STITCHING | COMPLETED | FAILED | CANCELLED

text \<open>
  A job document as the gateway creates it (\<^verbatim>\<open>submit_video\<close>), with the fields the
  orchestrator adds later; \<open>settings\<close> holds whatever other fields the document has
  (the worker reads \<^verbatim>\<open>profile\<close>, \<^verbatim>\<open>target_logos\<close>, \<^verbatim>\<open>target_text\<close> and \<^verbatim>\<open>mode\<close> from it).
\<close>

record job =
  status :: status
  chunks_total :: int
  chunks_completed :: int
  webhook_url :: "string option"
  output_url :: "string option"
  error_message :: "string option"
  settings :: pydict

type_synonym bytes = "nat list"

text \<open>
  Every effect on a collaborator is appended to a trace, in program order: writes to the
  job document, blob uploads and deletions, tasks accepted by the queue, stitch triggers
  and webhook posts that were sent.
\<close>

datatype event =
    StatusWrite string status
  | TotalWrite string int
  | CompletedWrite string int int  \<comment> \<open>job id, the count written, the total read with it\<close>
  | BlobPut string bytes            \<comment> \<open>object name, the bytes stored\<close>
  | BlobDelete string
  | TaskCreated string string nat  \<comment> \<open>job id, chunk name, chunk index\<close>
  | StitchTrigger string
  | WebhookPost string string      \<comment> \<open>endpoint, job id\<close>

text \<open>
  The bucket is an association list from object name to content, in no particular
  order; \<open>list_blobs\<close> returns the objects under a prefix in the order of the list.
\<close>

record system =
  db :: "string \<rightharpoonup> job"
  blobs :: "(string \<times> bytes) list"
  trace :: "event list"

datatype response =
    RespError               \<comment> \<open>\<^verbatim>\<open>{"status": "error"}\<close> of ingest\<close>
  | RespDispatched nat      \<comment> \<open>\<^verbatim>\<open>{"status": "dispatched", "chunks": n}\<close>\<close>
  | RespCouldNotOpen        \<comment> \<open>\<^verbatim>\<open>{"status": "error", "message": "Could not open video"}\<close>\<close>
  | RespChunkProcessed string
  | RespCompleted string    \<comment> \<open>\<^verbatim>\<open>{"status": "COMPLETED", "url": url}\<close>\<close>
  | RespCancelled

text \<open>\<^verbatim>\<open>doc_ref.update(fields)\<close>: fails with \<^verbatim>\<open>NotFound\<close> when the document does not exist.\<close>

definition doc_update :: "string \<Rightarrow> (job \<Rightarrow> job) \<Rightarrow> event \<Rightarrow> system \<Rightarrow> error + system" where
  "doc_update job_id f ev s =
     (case db s job_id of
        None \<Rightarrow> Inl NotFound
      | Some j \<Rightarrow> Inr (s\<lparr>db := (db s)(job_id \<mapsto> f j), trace := trace s @ [ev]\<rparr>))"

definition blob_get :: "string \<Rightarrow> system \<Rightarrow> bytes option" where
  "blob_get path s = map_of (blobs s) path"

definition blob_put :: "string \<Rightarrow> bytes \<Rightarrow> system \<Rightarrow> system" where
  "blob_put path content s =
     s\<lparr>blobs := AList.update path content (blobs s), trace := trace s @ [BlobPut path content]\<rparr>"

text \<open>\<^verbatim>\<open>blob.delete()\<close>: fails with \<^verbatim>\<open>NotFound\<close> when the object is not there.\<close>

definition blob_delete :: "string \<Rightarrow> system \<Rightarrow> error + system" where
  "blob_delete path s =
     (case map_of (blobs s) path of
        None \<Rightarrow> Inl NotFound
      | Some _ \<Rightarrow> Inr (s\<lparr>blobs := AList.delete path (blobs s),
                          trace := trace s @ [BlobDelete path]\<rparr>))"

definition list_blobs :: "string \<Rightarrow> system \<Rightarrow> (string \<times> bytes) list" where
  "list_blobs pfx s = filter (\<lambda>b. prefix pfx (fst b)) (blobs s)"

text \<open>A non-empty string is true; \<^verbatim>\<open>None\<close> and the empty string are false.\<close>

fun truthy_str :: "string option \<Rightarrow> bool" where
  "truthy_str None = False"
| "truthy_str (Some u) = (u \<noteq> [])"

section \<open>String helpers\<close>

text \<open>\<^verbatim>\<open>sub in s\<close> on strings.\<close>

fun py_in :: "string \<Rightarrow> string \<Rightarrow> bool" where
  "py_in sub [] = (sub = [])"
| "py_in sub (c # cs) = (prefix sub (c # cs) \<or> py_in sub cs)"

text \<open>\<^verbatim>\<open>s.endswith(suf)\<close>.\<close>

definition endswith :: "string \<Rightarrow> string \<Rightarrow> bool" where
  "endswith s suf = suffix suf s"

text \<open>\<^verbatim>\<open>os.path.basename(p)\<close>: what follows the last slash.\<close>

definition basename :: "string \<Rightarrow> string" where
  "basename p = rev (takeWhile (\<lambda>c. c \<noteq> CHR ''/'') (rev p))"

text \<open>
  \<^verbatim>\<open>s.replace(old, new)\<close> for a non-empty \<open>old\<close> (the only use has \<open>old\<close> ending in an
  underscore): every occurrence, left to right, without overlap.
\<close>

function py_replace :: "string \<Rightarrow> string \<Rightarrow> string \<Rightarrow> string" where
  "py_replace old new [] = []"
| "py_replace old new (c # cs) =
     (if old \<noteq> [] \<and> prefix old (c # cs)
      then new @ py_replace old new (drop (length old) (c # cs))
      else c # py_replace old new cs)"
  by pat_completeness auto
termination
  by (relation "measure (\<lambda>(old, new, s). length s)") (auto simp: neq_Nil_conv)

text \<open>
  The names ffmpeg's segment muxer writes for the pattern \<^verbatim>\<open>/tmp/{job_id}_chunk_%03d.mp4\<close>:
  \<^verbatim>\<open>%03d\<close> is the decimal index, padded with zeros to at least three digits.
\<close>

definition digit_char :: "nat \<Rightarrow> char" where
  "digit_char d = char_of (48 + d)"

fun decimal :: "nat \<Rightarrow> string" where
  "decimal n = (if n < 10 then [digit_char n] else decimal (n div 10) @ [digit_char (n mod 10)])"

declare decimal.simps [simp del]

definition pad3 :: "nat \<Rightarrow> string" where
  "pad3 n = replicate (3 - length (decimal n)) (CHR ''0'') @ decimal n"

definition chunk_name_of :: "nat \<Rightarrow> string" where
  "chunk_name_of i = ''chunk_'' @ pad3 i @ ''.mp4''"

definition segment_path :: "string \<Rightarrow> nat \<Rightarrow> string" where
  "segment_path job_id i = ''/tmp/'' @ job_id @ ''_'' @ chunk_name_of i"

section \<open>Orchestrator (orchestrator/main.py)\<close>

text \<open>
  The collaborators of the orchestrator: ffprobe (\<open>None\<close> when the probe raises), the
  ffmpeg segmenter together with the glob that collects its files (\<open>None\<close> when ffmpeg
  exits with an error), the task queue (whether it accepts the task of a chunk index),
  the ffmpeg concat run and the URL signer (\<open>None\<close> when signing raises).
\<close>

record orchestrator_env =
  probe_duration :: "bytes \<Rightarrow> real option"
  segment :: "string \<Rightarrow> bytes \<Rightarrow> (string \<times> bytes) list option"
  create_task_ok :: "string \<Rightarrow> nat \<Rightarrow> bool"
  concat_files :: "bytes list \<Rightarrow> bytes option"
  signed_url :: "string \<Rightarrow> string option"
  bucket_name :: string

definition CHUNK_DURATION :: real where
  "CHUNK_DURATION = 300"

definition input_path :: "string \<Rightarrow> string \<Rightarrow> string" where
  "input_path job_id name = ''input/'' @ job_id @ ''/'' @ name"

definition output_path :: "string \<Rightarrow> string \<Rightarrow> string" where
  "output_path job_id name = ''output/'' @ job_id @ ''/'' @ name"

text \<open>The clean name of a generated file:
  \<^verbatim>\<open>os.path.basename(fpath).replace(f"{job_id}_", "")\<close>.\<close>

definition clean_name :: "string \<Rightarrow> string \<Rightarrow> string" where
  "clean_name job_id fpath = py_replace (job_id @ ''_'') [] (basename fpath)"

text \<open>The loop that uploads the generated segment files and collects their clean names.\<close>

fun upload_chunks :: "string \<Rightarrow> (string \<times> bytes) list \<Rightarrow> system \<Rightarrow> string list \<Rightarrow> system \<times> string list" where
  "upload_chunks job_id [] s chunks_to_dispatch = (s, chunks_to_dispatch)"
| "upload_chunks job_id ((fpath, content) # rest) s chunks_to_dispatch =
     (let fname = clean_name job_id fpath
      in upload_chunks job_id rest (blob_put (input_path job_id fname) content s)
           (chunks_to_dispatch @ [fname]))"

text \<open>Steps 3 and 4 of \<^verbatim>\<open>ingest_video\<close>: probe, then bypass or split.\<close>

definition plan_chunks :: "orchestrator_env \<Rightarrow> string \<Rightarrow> bytes \<Rightarrow> system \<Rightarrow> error + system \<times> string list" where
  "plan_chunks env job_id original s =
     (let duration = (case probe_duration env original of None \<Rightarrow> 0 | Some d \<Rightarrow> d)
      in if duration > 0 \<and> duration < CHUNK_DURATION then
           Inr (blob_put (input_path job_id ''chunk_000.mp4'') original s, [''chunk_000.mp4''])
         else
           (case segment env job_id original of
              None \<Rightarrow> Inl CalledProcessError
            | Some generated_files \<Rightarrow>
                Inr (upload_chunks job_id (sort_key fst generated_files) s [])))"

text \<open>Step 6: one task per chunk; a task the queue refuses is logged and skipped.\<close>

fun dispatch :: "orchestrator_env \<Rightarrow> string \<Rightarrow> (nat \<times> string) list \<Rightarrow> system \<Rightarrow> system" where
  "dispatch env job_id [] s = s"
| "dispatch env job_id ((i, chunk_name) # rest) s =
     dispatch env job_id rest
       (if create_task_ok env job_id i
        then s\<lparr>trace := trace s @ [TaskCreated job_id chunk_name i]\<rparr>
        else s)"

definition ingest_video :: "orchestrator_env \<Rightarrow> string \<Rightarrow> system \<Rightarrow> system \<times> (error + response)" where
  "ingest_video env job_id s =
     (case doc_update job_id (\<lambda>j. j\<lparr>status := CHUNKING\<rparr>) (StatusWrite job_id CHUNKING) s of
        Inl e \<Rightarrow> (s, Inl e)
      | Inr s1 \<Rightarrow>
          (case blob_get (input_path job_id ''original.mp4'') s1 of
             None \<Rightarrow>
               (case doc_update job_id
                       (\<lambda>j. j\<lparr>status := FAILED, error_message := Some ''Input video not found''\<rparr>)
                       (StatusWrite job_id FAILED) s1 of
                  Inl e \<Rightarrow> (s1, Inl e)
                | Inr s2 \<Rightarrow> (s2, Inr RespError))
           | Some original \<Rightarrow>
               (case plan_chunks env job_id original s1 of
                  Inl e \<Rightarrow> (s1, Inl e)
                | Inr (s2, chunks_to_dispatch) \<Rightarrow>
                    (let total_chunks = length chunks_to_dispatch
                     in case doc_update job_id (\<lambda>j. j\<lparr>chunks_total := int total_chunks\<rparr>)
                               (TotalWrite job_id (int total_chunks)) s2 of
                          Inl e \<Rightarrow> (s2, Inl e)
                        | Inr s3 \<Rightarrow>
                            (dispatch env job_id
                               (zip [0..<length chunks_to_dispatch] chunks_to_dispatch) s3,
                             Inr (RespDispatched total_chunks))))))"

text \<open>The stitcher's filter: \<^verbatim>\<open>"chunk_" in b.name and b.name.endswith(".mp4")\<close>.\<close>

definition is_chunk_blob :: "string \<Rightarrow> bool" where
  "is_chunk_blob name = (py_in ''chunk_'' name \<and> endswith name ''.mp4'')"

text \<open>Step 2 of \<^verbatim>\<open>stitch_video\<close>: list, filter, sort by name.\<close>

definition chunk_blobs :: "string \<Rightarrow> system \<Rightarrow> (string \<times> bytes) list" where
  "chunk_blobs job_id s =
     sort_key fst (filter (\<lambda>b. is_chunk_blob (fst b)) (list_blobs (''output/'' @ job_id @ ''/'') s))"

text \<open>
  The download loop and the concat list: each chunk blob is downloaded to
  \<^verbatim>\<open>/tmp/{basename}\<close> and that path is listed; ffmpeg then reads, for each listed path,
  what the last download to that path left there.
\<close>

definition concat_inputs :: "(string \<times> bytes) list \<Rightarrow> bytes list" where
  "concat_inputs chunk_blob_list =
     (let local_files = map (\<lambda>b. (''/tmp/'' @ basename (fst b), snd b)) chunk_blob_list
      in map (\<lambda>lf. case map_of (rev local_files) (fst lf) of
                       Some content \<Rightarrow> content
                     | None \<Rightarrow> snd lf)
           local_files)"

definition stitch_video :: "orchestrator_env \<Rightarrow> string \<Rightarrow> system \<Rightarrow> system \<times> (error + response)" where
  "stitch_video env job_id s =
     (case doc_update job_id (\<lambda>j. j\<lparr>status := STITCHING\<rparr>) (StatusWrite job_id STITCHING) s of
        Inl e \<Rightarrow> (s, Inl e)
      | Inr s1 \<Rightarrow>
          (case concat_files env (concat_inputs (chunk_blobs job_id s1)) of
             None \<Rightarrow> (s1, Inl CalledProcessError)
           | Some output_local \<Rightarrow>
               (let s2 = blob_put (output_path job_id ''final.mp4'') output_local s1;
                    output_url =
                      (case signed_url env (output_path job_id ''final.mp4'') of
                         Some u \<Rightarrow> u
                       | None \<Rightarrow> ''https://storage.googleapis.com/'' @ bucket_name env @ ''/''
                                  @ output_path job_id ''final.mp4'')
                in case doc_update job_id
                          (\<lambda>j. j\<lparr>status := COMPLETED, output_url := Some output_url\<rparr>)
                          (StatusWrite job_id COMPLETED) s2 of
                     Inl e \<Rightarrow> (s2, Inl e)
                   | Inr s3 \<Rightarrow>
                       (case db s3 job_id of
                          None \<Rightarrow> (s3, Inl NotFound)
                        | Some job_doc \<Rightarrow>
                            ((if truthy_str (webhook_url job_doc)
                              then s3\<lparr>trace := trace s3
                                       @ [WebhookPost (case webhook_url job_doc of Some w \<Rightarrow> w | None \<Rightarrow> []) job_id]\<rparr>
                              else s3),
                             Inr (RespCompleted output_url))))))"

text \<open>The loop \<^verbatim>\<open>for blob in blobs: blob.delete()\<close>.\<close>

fun delete_blobs :: "string list \<Rightarrow> system \<Rightarrow> system \<times> error option" where
  "delete_blobs [] s = (s, None)"
| "delete_blobs (path # rest) s =
     (case blob_delete path s of
        Inl e \<Rightarrow> (s, Some e)
      | Inr s1 \<Rightarrow> delete_blobs rest s1)"

definition delete_job :: "string \<Rightarrow> system \<Rightarrow> system \<times> (error + response)" where
  "delete_job job_id s =
     (let listed = map fst (list_blobs (''input/'' @ job_id) s)
                   @ map fst (list_blobs (''output/'' @ job_id) s)
      in case delete_blobs listed s of
           (s1, Some e) \<Rightarrow> (s1, Inl e)
         | (s1, None) \<Rightarrow>
             (case doc_update job_id (\<lambda>j. j\<lparr>status := CANCELLED\<rparr>) (StatusWrite job_id CANCELLED) s1 of
                Inl e \<Rightarrow> (s1, Inl e)
              | Inr s2 \<Rightarrow> (s2, Inr RespCancelled)))"

section \<open>GPU worker (gpu-worker/main.py)\<close>

text \<open>
  The collaborators of the worker: \<^verbatim>\<open>cv2.imwrite\<close> of the dummy image to the local input
  path (\<open>None\<close> when it raises), \<^verbatim>\<open>cv2.VideoCapture\<close> (\<open>None\<close> when the file cannot be
  opened, the frames otherwise), the redaction engine, \<^verbatim>\<open>cv2.VideoWriter\<close>, and the
  environment variable \<^verbatim>\<open>ORCHESTRATOR_URL\<close>.
\<close>

record worker_env =
  imwrite_dummy :: "string \<Rightarrow> bytes option"
  video_capture :: "bytes \<Rightarrow> bytes list option"
  detect_and_redact :: "PrivacyConfig \<Rightarrow> bytes \<Rightarrow> bytes"
  video_writer :: "bytes list \<Rightarrow> bytes"
  orchestrator_url :: "string option"

text \<open>
  \<^verbatim>\<open>get_config_for_profile\<close> takes the profile as a string; a stored value that is not a
  string equals no profile name, as the empty string does.
\<close>

fun profile_string :: "pyval \<Rightarrow> string" where
  "profile_string (PStr p) = p"
| "profile_string v = []"

text \<open>Step 2 of \<^verbatim>\<open>process_chunk\<close>: the configuration from the job document.\<close>

definition job_config :: "job \<Rightarrow> error + PrivacyConfig" where
  "job_config job_data =
     get_config_for_profile
       (profile_string (dict_get_default (settings job_data) ''profile'' (PStr ''NONE'')))
       (Some [''target_logos'' \<mapsto> dict_get_default (settings job_data) ''target_logos'' (PBool False),
              ''target_text'' \<mapsto> dict_get_default (settings job_data) ''target_text'' (PBool False),
              ''mode'' \<mapsto> dict_get_default (settings job_data) ''mode'' (PStr ''blur'')])"

text \<open>Step 3: the chunk from the bucket, or the dummy written in its place.\<close>

definition fetch_input :: "worker_env \<Rightarrow> string \<Rightarrow> string \<Rightarrow> system \<Rightarrow> error + bytes" where
  "fetch_input env job_id chunk_name s =
     (case blob_get (input_path job_id chunk_name) s of
        Some content \<Rightarrow> Inr content
      | None \<Rightarrow>
          (case imwrite_dummy env (''/tmp/'' @ chunk_name) of
             None \<Rightarrow> Inl Cv2Error
           | Some dummy \<Rightarrow> Inr dummy))"

text \<open>
  Step 7, the transaction \<^verbatim>\<open>update_progress\<close>: read the counter, write it plus one,
  return the new count and the total read.
\<close>

definition update_progress :: "string \<Rightarrow> system \<Rightarrow> error + system \<times> int \<times> int" where
  "update_progress job_id s =
     (case db s job_id of
        None \<Rightarrow> Inl TypeError
      | Some snapshot \<Rightarrow>
          (let new_count = chunks_completed snapshot + 1
           in Inr (s\<lparr>db := (db s)(job_id \<mapsto> snapshot\<lparr>chunks_completed := new_count\<rparr>),
                     trace := trace s @ [CompletedWrite job_id new_count (chunks_total snapshot)]\<rparr>,
                   new_count, chunks_total snapshot)))"

text \<open>Step 8: the completion check and the stitch trigger.\<close>

definition trigger_stitch :: "worker_env \<Rightarrow> string \<Rightarrow> int \<Rightarrow> int \<Rightarrow> system \<Rightarrow> system" where
  "trigger_stitch env job_id completed total_read s =
     (if completed \<ge> total_read then
        (if truthy_str (orchestrator_url env)
         then s\<lparr>trace := trace s @ [StitchTrigger job_id]\<rparr>
         else s)
      else s)"

definition process_chunk :: "worker_env \<Rightarrow> string \<Rightarrow> string \<Rightarrow> system \<Rightarrow> system \<times> (error + response)" where
  "process_chunk env job_id chunk_name s =
     (case doc_update job_id (\<lambda>j. j\<lparr>status := PROCESSING\<rparr>) (StatusWrite job_id PROCESSING) s of
        Inl e \<Rightarrow> (s, Inl e)
      | Inr s1 \<Rightarrow>
          (case db s1 job_id of
             None \<Rightarrow> (s1, Inl TypeError)
           | Some job_data \<Rightarrow>
               (case job_config job_data of
                  Inl e \<Rightarrow> (s1, Inl e)
                | Inr cfg \<Rightarrow>
                    (case fetch_input env job_id chunk_name s1 of
                       Inl e \<Rightarrow> (s1, Inl e)
                     | Inr local_input \<Rightarrow>
                         (case video_capture env local_input of
                            None \<Rightarrow> (s1, Inr RespCouldNotOpen)
                          | Some frames \<Rightarrow>
                              (let local_output = video_writer env (map (detect_and_redact env cfg) frames);
                                   s2 = blob_put (output_path job_id chunk_name) local_output s1
                               in case update_progress job_id s2 of
                                    Inl e \<Rightarrow> (s2, Inl e)
                                  | Inr (s3, completed, total_read) \<Rightarrow>
                                      (trigger_stitch env job_id completed total_read s3,
                                       Inr (RespChunkProcessed chunk_name))))))))"

text \<open>A run of chunk-completion calls for one job, one after the other.\<close>

fun process_chunks :: "string \<Rightarrow> (worker_env \<times> string) list \<Rightarrow> system \<Rightarrow> system" where
  "process_chunks job_id [] s = s"
| "process_chunks job_id ((env, chunk_name) # calls) s =
     process_chunks job_id calls (fst (process_chunk env job_id chunk_name s))"

text \<open>The responses of that run, call by call.\<close>

fun chunk_responses :: "string \<Rightarrow> (worker_env \<times> string) list \<Rightarrow> system \<Rightarrow> (error + response) list" where
  "chunk_responses job_id [] s = []"
| "chunk_responses job_id ((env, chunk_name) # calls) s =
     snd (process_chunk env job_id chunk_name s)
       # chunk_responses job_id calls (fst (process_chunk env job_id chunk_name s))"

text \<open>Whether a response is \<^verbatim>\<open>{"status": "chunk_processed", ...}\<close>, which the worker returns
  only after the progress transaction.\<close>

fun is_chunk_processed :: "error + response \<Rightarrow> bool" where
  "is_chunk_processed (Inr (RespChunkProcessed c)) = True"
| "is_chunk_processed r = False"

section \<open>The requests the services answer\<close>

text \<open>
  The endpoints that write to the job store or the bucket: \<^verbatim>\<open>/internal/ingest\<close>,
  \<^verbatim>\<open>/internal/process-chunk\<close>, \<^verbatim>\<open>/internal/stitch\<close> and \<^verbatim>\<open>DELETE /v1/jobs/{job_id}\<close>, each
  with the collaborators it meets.
\<close>

datatype request =
    Ingest orchestrator_env string
  | ProcessChunk worker_env string string
  | Stitch orchestrator_env string
  | Delete string

fun handle :: "request \<Rightarrow> system \<Rightarrow> system" where
  "handle (Ingest env job_id) s = fst (ingest_video env job_id s)"
| "handle (ProcessChunk env job_id chunk_name) s = fst (process_chunk env job_id chunk_name s)"
| "handle (Stitch env job_id) s = fst (stitch_video env job_id s)"
| "handle (Delete job_id) s = fst (delete_job job_id s)"

fun handle_all :: "request list \<Rightarrow> system \<Rightarrow> system" where
  "handle_all [] s = s"
| "handle_all (r # rs) s = handle_all rs (handle r s)"

fun is_ingest_of :: "string \<Rightarrow> request \<Rightarrow> bool" where
  "is_ingest_of job_id (Ingest env job_id') = (job_id' = job_id)"
| "is_ingest_of job_id r = False"

section \<open>Observations on a trace\<close>

text \<open>The progress transactions of a job in a trace: the count each wrote and the total
  it read, in order.\<close>

fun completed_writes :: "string \<Rightarrow> event list \<Rightarrow> (int \<times> int) list" where
  "completed_writes job_id [] = []"
| "completed_writes job_id (CompletedWrite job_id' n t # evs) =
     (if job_id' = job_id then (n, t) # completed_writes job_id evs
      else completed_writes job_id evs)"
| "completed_writes job_id (_ # evs) = completed_writes job_id evs"

text \<open>The number of stitch triggers sent for a job.\<close>

definition stitch_triggers :: "string \<Rightarrow> event list \<Rightarrow> nat" where
  "stitch_triggers job_id evs = count_list evs (StitchTrigger job_id)"

text \<open>The values written to \<^verbatim>\<open>chunks_total\<close> of a job.\<close>

fun total_writes :: "string \<Rightarrow> event list \<Rightarrow> int list" where
  "total_writes job_id [] = []"
| "total_writes job_id (TotalWrite job_id' n # evs) =
     (if job_id' = job_id then n # total_writes job_id evs else total_writes job_id evs)"
| "total_writes job_id (_ # evs) = total_writes job_id evs"

fun is_task :: "event \<Rightarrow> bool" where
  "is_task (TaskCreated _ _ _) = True"
| "is_task _ = False"

section \<open>Example states\<close>

definition demo_job :: job where
  "demo_job = \<lparr> status = PROCESSING, chunks_total = 2, chunks_completed = 1,
                 webhook_url = None, output_url = None, error_message = None,
                 settings = Map.empty \<rparr>"

definition demo_system :: system where
  "demo_system =
     \<lparr> db = [''j1'' \<mapsto> demo_job],
       blobs = [(''input/j1/original.mp4'', [1, 2]), (''output/j1/chunk_000.mp4'', [3]),
                (''input/j2/original.mp4'', [4])],
       trace = [] \<rparr>"

text \<open>A worker whose video tools always succeed, and a job of one chunk that is ready
  to be processed.\<close>

definition demo_worker :: worker_env where
  "demo_worker =
     \<lparr> imwrite_dummy = (\<lambda>path. Some [0]),
       video_capture = (\<lambda>content. Some [content]),
       detect_and_redact = (\<lambda>cfg frame. frame),
       video_writer = concat,
       orchestrator_url = Some ''http://orchestrator'' \<rparr>"

definition one_chunk_system :: system where
  "one_chunk_system =
     \<lparr> db = [''j1'' \<mapsto> demo_job\<lparr>chunks_total := 1, chunks_completed := 0\<rparr>],
       blobs = [(''input/j1/chunk_000.mp4'', [7])],
       trace = [] \<rparr>"

text \<open>An orchestrator whose tools always succeed: the probe reports two minutes, the
  segmenter leaves three files (listed out of order), the queue accepts every task.\<close>

definition demo_orchestrator :: orchestrator_env where
  "demo_orchestrator =
     \<lparr> probe_duration = (\<lambda>content. Some 120),
       segment = (\<lambda>job_id content.
          Some [(segment_path job_id 2, [3]), (segment_path job_id 0, [1]),
                (segment_path job_id 1, [2])]),
       create_task_ok = (\<lambda>job_id i. True),
       concat_files = (\<lambda>files. Some (concat files)),
       signed_url = (\<lambda>path. None),
       bucket_name = ''media-v5'' \<rparr>"

text \<open>A job that was erased: status \<open>CANCELLED\<close>, no blobs left.\<close>

definition cancelled_system :: system where
  "cancelled_system =
     \<lparr> db = [''j1'' \<mapsto> demo_job\<lparr>status := CANCELLED, chunks_total := 1, chunks_completed := 0\<rparr>],
       blobs = [],
       trace = [] \<rparr>"

text \<open>A worker on which \<^verbatim>\<open>cv2.VideoCapture\<close> opens nothing, and a job whose chunk was
  never uploaded.\<close>

definition blind_worker :: worker_env where
  "blind_worker = demo_worker\<lparr>video_capture := (\<lambda>content. None)\<rparr>"

definition missing_chunk_system :: system where
  "missing_chunk_system =
     \<lparr> db = [''j1'' \<mapsto> demo_job\<lparr>chunks_total := 1, chunks_completed := 0\<rparr>],
       blobs = [],
       trace = [] \<rparr>"

text \<open>An orchestrator whose probe fails, and a job whose upload is in the bucket.\<close>

definition unprobed_orchestrator :: orchestrator_env where
  "unprobed_orchestrator = demo_orchestrator\<lparr>probe_duration := (\<lambda>content. None)\<rparr>"

definition queued_system :: system where
  "queued_system =
     \<lparr> db = [''j1'' \<mapsto> demo_job\<lparr>status := QUEUED, chunks_total := 0, chunks_completed := 0\<rparr>],
       blobs = [(''input/j1/original.mp4'', [9])],
       trace = [] \<rparr>"

text \<open>A job id as the gateway generates it, and its bucket when all three chunks are
  processed: the artifacts in arrival order, with a final video of an earlier stitch
  and the job's input among them.\<close>

definition demo_uuid :: string where
  "demo_uuid = ''123e4567-e89b-12d3-a456-426614174000''"

definition processed_system :: system where
  "processed_system =
     \<lparr> db = [demo_uuid \<mapsto> demo_job\<lparr>chunks_total := 3, chunks_completed := 3\<rparr>],
       blobs = [(output_path demo_uuid (chunk_name_of 2), [3]),
                (output_path demo_uuid ''final.mp4'', [0]),
                (output_path demo_uuid (chunk_name_of 0), [1]),
                (input_path demo_uuid ''original.mp4'', [9]),
                (output_path demo_uuid (chunk_name_of 1), [2])],
       trace = [] \<rparr>"

section \<open>The chunk pattern\<close>

text \<open>
  The pattern the chunk names are meant to follow, in the words of the specification
  (\<^verbatim>\<open>chunk_<3-digit zero-padded index>\<close>) and of the comment above the stitcher's filter
  (\<^verbatim>\<open>chunk_XXX.mp4\<close> files only): an object directly under the job's output prefix whose
  name is \<^verbatim>\<open>chunk_\<close>, three digits and \<^verbatim>\<open>.mp4\<close>.
\<close>

fun strip_prefix :: "string \<Rightarrow> string \<Rightarrow> string option" where
  "strip_prefix [] s = Some s"
| "strip_prefix (p # ps) [] = None"
| "strip_prefix (p # ps) (c # cs) = (if p = c then strip_prefix ps cs else None)"

definition is_digit :: "char \<Rightarrow> bool" where
  "is_digit c = (c \<in> set ''0123456789'')"

definition spec_chunk_pattern :: "string \<Rightarrow> string \<Rightarrow> bool" where
  "spec_chunk_pattern job_id name =
     (case strip_prefix (''output/'' @ job_id @ ''/chunk_'') name of
        None \<Rightarrow> False
      | Some rest \<Rightarrow>
          (case rest of
             d1 # d2 # d3 # ext \<Rightarrow> is_digit d1 \<and> is_digit d2 \<and> is_digit d3 \<and> ext = ''.mp4''
           | _ \<Rightarrow> False))"

text \<open>A bucket with two processed chunks and two stray objects under the job's output
  prefix: a backup copy and a chunk left in a subfolder.\<close>

definition stray_system :: system where
  "stray_system =
     \<lparr> db = [''j1'' \<mapsto> demo_job\<lparr>chunks_total := 2, chunks_completed := 2\<rparr>],
       blobs = [(''output/j1/chunk_001.mp4'', [2]),
                (''output/j1/old/chunk_001.mp4'', [77]),
                (''output/j1/chunk_000.mp4'', [1]),
                (''output/j1/chunk_000.mp4.bak.mp4'', [66])],
       trace = [] \<rparr>"

section \<open>Policy resolver: mandates are floors\<close>

lemma py_max_cases:
  "py_max lo v = Inl e \<longleftrightarrow> (e = TypeError \<and> num_of v = None)"
  "py_max lo v = Inr t \<longleftrightarrow> (\<exists>r. num_of v = Some r \<and> t = max lo r)"
  by (auto simp: py_max_def max_def split: option.splits)

lemma apply_target_overrides_fields [simp]:
  "mode (apply_target_overrides ov cfg) = mode cfg"
  "confidence_threshold (apply_target_overrides ov cfg) = confidence_threshold cfg"
  "target_faces (apply_target_overrides ov cfg) = target_faces cfg"
  "target_plates (apply_target_overrides ov cfg) = target_plates cfg"
  "target_logos cfg \<Longrightarrow> target_logos (apply_target_overrides ov cfg)"
  "target_text cfg \<Longrightarrow> target_text (apply_target_overrides ov cfg)"
  by (simp_all add: apply_target_overrides_def Let_def)

lemma apply_mode_override_fields [simp]:
  "confidence_threshold (apply_mode_override p ov cfg) = confidence_threshold cfg"
  "target_faces (apply_mode_override p ov cfg) = target_faces cfg"
  "target_plates (apply_mode_override p ov cfg) = target_plates cfg"
  "target_logos (apply_mode_override p ov cfg) = target_logos cfg"
  "target_text (apply_mode_override p ov cfg) = target_text cfg"
  "mode (apply_mode_override ''HIPAA_SAFE_HARBOR'' ov cfg) = mode cfg"
  by (simp_all add: apply_mode_override_def split: option.splits)

text \<open>
  Claim C6.  For every profile and every override dictionary, the effective
  configuration keeps every target the profile mandates, whatever the overrides say;
  under \<^verbatim>\<open>HIPAA_SAFE_HARBOR\<close> the mode is \<open>BLACK_BOX\<close> whatever mode the override asks
  for; and under a profile with confidence floor \<open>f\<close> (0.6 for GDPR, 0.7 for HIPAA,
  0.55 for CCPA) the effective threshold is \<open>f\<close> when no threshold is overridden and
  \<open>max f r\<close> when the override is the number \<open>r\<close>.  The resolver produces no
  configuration only when such a profile is given a threshold override that is not a
  number: comparing it with the floor raises \<^verbatim>\<open>TypeError\<close>.
\<close>

theorem policy_mandates_are_floors:
  "(case get_config_for_profile profile (Some ov) of
      Inl e \<Rightarrow>
        e = TypeError \<and> profile \<in> {''GDPR'', ''HIPAA_SAFE_HARBOR'', ''CCPA''} \<and>
        (\<exists>v. ov ''confidence_threshold'' = Some v \<and> num_of v = None)
    | Inr cfg \<Rightarrow>
        (profile = ''GDPR'' \<longrightarrow>
           target_faces cfg \<and> target_plates cfg \<and> target_text cfg \<and>
           (case ov ''confidence_threshold'' of
              None \<Rightarrow> confidence_threshold cfg = 6 / 10
            | Some v \<Rightarrow> \<exists>r. num_of v = Some r \<and> confidence_threshold cfg = max (6 / 10) r)) \<and>
        (profile = ''HIPAA_SAFE_HARBOR'' \<longrightarrow>
           target_faces cfg \<and> target_plates cfg \<and> target_text cfg \<and> target_logos cfg \<and>
           mode cfg = BLACK_BOX \<and>
           (case ov ''confidence_threshold'' of
              None \<Rightarrow> confidence_threshold cfg = 7 / 10
            | Some v \<Rightarrow> \<exists>r. num_of v = Some r \<and> confidence_threshold cfg = max (7 / 10) r)) \<and>
        (profile = ''CCPA'' \<longrightarrow>
           target_faces cfg \<and> target_plates cfg \<and>
           (case ov ''confidence_threshold'' of
              None \<Rightarrow> confidence_threshold cfg = 55 / 100
            | Some v \<Rightarrow> \<exists>r. num_of v = Some r \<and> confidence_threshold cfg = max (55 / 100) r)))"
  by (auto simp: get_config_for_profile_def apply_mandates_def dict_get_default_def
        py_max_cases default_config_def
      split: sum.splits option.splits if_splits)

text \<open>
  The spec's examples: GDPR with override 0.3 (and an attempt to switch text detection
  off) yields 0.6 with text detection on, GDPR with override 0.9 yields 0.9, and HIPAA
  with a request for blur stays black box.
\<close>

theorem policy_mandates_are_floors_witness:
  "(\<exists>cfg. get_config_for_profile ''GDPR''
            (Some [''confidence_threshold'' \<mapsto> PNum (3 / 10), ''target_text'' \<mapsto> PBool False])
          = Inr cfg \<and> target_text cfg \<and> confidence_threshold cfg = 6 / 10) \<and>
   (\<exists>cfg. get_config_for_profile ''GDPR'' (Some [''confidence_threshold'' \<mapsto> PNum (9 / 10)])
          = Inr cfg \<and> confidence_threshold cfg = 9 / 10) \<and>
   (\<exists>cfg. get_config_for_profile ''HIPAA_SAFE_HARBOR'' (Some [''mode'' \<mapsto> PStr ''blur''])
          = Inr cfg \<and> mode cfg = BLACK_BOX \<and> confidence_threshold cfg = 7 / 10)"
  using
    policy_mandates_are_floors [of "''GDPR''"
      "[''confidence_threshold'' \<mapsto> PNum (3 / 10), ''target_text'' \<mapsto> PBool False]"]
    policy_mandates_are_floors [of "''GDPR''" "[''confidence_threshold'' \<mapsto> PNum (9 / 10)]"]
    policy_mandates_are_floors [of "''HIPAA_SAFE_HARBOR''" "[''mode'' \<mapsto> PStr ''blur'']"]
  by (simp split: sum.splits)

text \<open>
  Claim C8.  For every profile and every override dictionary whose mode names no
  recognized value, the mode step of the resolver returns the configuration it is given
  unchanged (the \<^verbatim>\<open>ValueError\<close> of the lookup is caught, and the step has no other way to
  fail), and the resolver as a whole does exactly what it does on the same dictionary
  without the mode key: the unrecognized mode is ignored and is never the cause of an
  error.  When a configuration is returned its mode is the profile's or the default one
  (\<open>BLACK_BOX\<close> under HIPAA, \<open>BLUR\<close> otherwise).  A configuration is returned on every
  such dictionary that has no threshold override or a numeric one, as all
  dictionaries built by the gateway and the worker are, and under every profile
  without a confidence floor.
\<close>

theorem unrecognized_mode_ignored:
  assumes "ov ''mode'' = Some v" and "AnonymizeMode_of v = None"
  shows
    "(\<forall>cfg. apply_mode_override profile ov cfg = cfg) \<and>
     get_config_for_profile profile (Some ov) =
       get_config_for_profile profile (Some (ov(''mode'' := None))) \<and>
     (\<forall>cfg. get_config_for_profile profile (Some ov) = Inr cfg \<longrightarrow>
        mode cfg = (if profile = ''HIPAA_SAFE_HARBOR'' then BLACK_BOX else BLUR)) \<and>
     ((\<exists>cfg. get_config_for_profile profile (Some ov) = Inr cfg) \<longleftrightarrow>
        (profile \<notin> {''GDPR'', ''HIPAA_SAFE_HARBOR'', ''CCPA''} \<or>
         (case ov ''confidence_threshold'' of None \<Rightarrow> True | Some t \<Rightarrow> num_of t \<noteq> None)))"
  using assms
  by (auto simp: get_config_for_profile_def apply_mandates_def dict_get_default_def
        dict_get_def apply_target_overrides_def apply_mode_override_def Let_def
        py_max_def default_config_def
      split: sum.splits option.splits if_splits)

theorem unrecognized_mode_ignored_witness:
  "apply_mode_override ''CCPA'' [''mode'' \<mapsto> PStr ''sepia''] default_config = default_config \<and>
   get_config_for_profile ''CCPA'' (Some [''mode'' \<mapsto> PStr ''sepia'']) =
     get_config_for_profile ''CCPA'' (Some Map.empty) \<and>
   (\<exists>cfg. get_config_for_profile ''CCPA'' (Some [''mode'' \<mapsto> PStr ''sepia'']) = Inr cfg \<and>
      mode cfg = BLUR)"
  using unrecognized_mode_ignored [of "[''mode'' \<mapsto> PStr ''sepia'']" "PStr ''sepia''" "''CCPA''"]
  by (simp add: fun_upd_idem) metis

section \<open>Chunk completions: the counter and the stitch trigger\<close>

lemma get_config_without_threshold:
  "ov ''confidence_threshold'' = None \<Longrightarrow> \<exists>cfg. get_config_for_profile p (Some ov) = Inr cfg"
  by (simp add: get_config_for_profile_def apply_mandates_def dict_get_default_def py_max_def)

lemma job_config_total: "\<exists>cfg. job_config j = Inr cfg"
  unfolding job_config_def by (rule get_config_without_threshold) simp

lemma process_chunk_cases:
  assumes "db s job_id = Some j"
  shows
    "(\<exists>r. r \<in> {Inl Cv2Error, Inr RespCouldNotOpen} \<and>
         process_chunk env job_id c s =
           (s\<lparr>db := (db s)(job_id \<mapsto> j\<lparr>status := PROCESSING\<rparr>),
              trace := trace s @ [StatusWrite job_id PROCESSING]\<rparr>, r)) \<or>
     (\<exists>out.
         process_chunk env job_id c s =
           (s\<lparr>db := (db s)(job_id \<mapsto>
                   j\<lparr>status := PROCESSING, chunks_completed := chunks_completed j + 1\<rparr>),
              blobs := AList.update (output_path job_id c) out (blobs s),
              trace := trace s @
                [StatusWrite job_id PROCESSING, BlobPut (output_path job_id c) out,
                 CompletedWrite job_id (chunks_completed j + 1) (chunks_total j)] @
                (if chunks_completed j + 1 \<ge> chunks_total j \<and> truthy_str (orchestrator_url env)
                 then [StitchTrigger job_id] else [])\<rparr>,
            Inr (RespChunkProcessed c)))"
proof -
  obtain cfg where cfg: "job_config (j\<lparr>status := PROCESSING\<rparr>) = Inr cfg"
    using job_config_total by blast
  show ?thesis
  proof (cases "fetch_input env job_id c
                  (s\<lparr>db := (db s)(job_id \<mapsto> j\<lparr>status := PROCESSING\<rparr>),
                     trace := trace s @ [StatusWrite job_id PROCESSING]\<rparr>)")
    case (Inl e)
    then have "e = Cv2Error"
      by (auto simp: fetch_input_def split: option.splits)
    with Inl show ?thesis
      using assms cfg by (simp add: process_chunk_def doc_update_def)
  next
    case (Inr local_input)
    show ?thesis
    proof (cases "video_capture env local_input")
      case None
      with Inr show ?thesis
        using assms cfg by (simp add: process_chunk_def doc_update_def)
    next
      case (Some frames)
      with Inr show ?thesis
        using assms cfg
        by (intro disjI2 exI [of _ "video_writer env (map (detect_and_redact env cfg) frames)"])
           (simp add: process_chunk_def doc_update_def Let_def blob_put_def
              update_progress_def trigger_stitch_def)
    qed
  qed
qed

lemma completed_writes_append [simp]:
  "completed_writes job_id (xs @ ys) = completed_writes job_id xs @ completed_writes job_id ys"
  by (induction job_id xs rule: completed_writes.induct) auto

lemma stitch_triggers_append [simp]:
  "stitch_triggers job_id (xs @ ys) = stitch_triggers job_id xs + stitch_triggers job_id ys"
  by (simp add: stitch_triggers_def)

lemma process_chunk_step:
  assumes "db s job_id = Some j"
  shows "\<exists>j' new.
           db (fst (process_chunk env job_id c s)) job_id = Some j' \<and>
           trace (fst (process_chunk env job_id c s)) = trace s @ new \<and>
           status j' = PROCESSING \<and>
           chunks_total j' = chunks_total j \<and>
           ((completed_writes job_id new = [] \<and> stitch_triggers job_id new = 0 \<and>
             chunks_completed j' = chunks_completed j \<and>
             snd (process_chunk env job_id c s) \<noteq> Inr (RespChunkProcessed c)) \<or>
            (completed_writes job_id new = [(chunks_completed j + 1, chunks_total j)] \<and>
             stitch_triggers job_id new =
               (if chunks_completed j + 1 \<ge> chunks_total j \<and> truthy_str (orchestrator_url env)
                then 1 else 0) \<and>
             chunks_completed j' = chunks_completed j + 1 \<and>
             snd (process_chunk env job_id c s) = Inr (RespChunkProcessed c)))"
  using process_chunk_cases [OF assms, of env c]
  by (elim disjE exE conjE) (auto simp: stitch_triggers_def)

lemma shifted_counts:
  "(a + 1, t) # map (\<lambda>i. (a + 1 + 1 + int i, t)) [0..<k] =
   map (\<lambda>i. (a + 1 + int i, t :: int)) [0..<Suc k]"
proof -
  have "map (\<lambda>i. (a + 1 + int i, t)) [0..<Suc k] =
        (a + 1, t) # map (\<lambda>i. (a + 1 + int i, t)) (map Suc [0..<k])"
    by (simp add: upt_conv_Cons map_Suc_upt del: upt_Suc)
  then show ?thesis by (simp add: o_def add.commute add.left_commute)
qed

lemma process_chunks_run:
  assumes "db s job_id = Some j"
  shows "\<exists>j' new k.
     db (process_chunks job_id calls s) job_id = Some j' \<and>
     trace (process_chunks job_id calls s) = trace s @ new \<and>
     k \<le> length calls \<and>
     chunks_total j' = chunks_total j \<and>
     chunks_completed j' = chunks_completed j + int k \<and>
     completed_writes job_id new =
       map (\<lambda>i. (chunks_completed j + 1 + int i, chunks_total j)) [0..<k] \<and>
     stitch_triggers job_id new
       \<le> length (filter (\<lambda>(n, t). n \<ge> t) (completed_writes job_id new)) \<and>
     ((\<forall>call \<in> set calls. truthy_str (orchestrator_url (fst call))) \<longrightarrow>
        stitch_triggers job_id new
          = length (filter (\<lambda>(n, t). n \<ge> t) (completed_writes job_id new)))"
  using assms
proof (induction calls arbitrary: s j)
  case Nil
  then show ?case by (simp add: stitch_triggers_def)
next
  case (Cons call calls)
  obtain env c where call: "call = (env, c)" by (cases call)
  let ?s1 = "fst (process_chunk env job_id c s)"
  from process_chunk_step [OF Cons.prems, of env c] obtain j1 new0 where
    j1: "db ?s1 job_id = Some j1" and
    tr0: "trace ?s1 = trace s @ new0" and
    tot1: "chunks_total j1 = chunks_total j" and
    alt: "(completed_writes job_id new0 = [] \<and> stitch_triggers job_id new0 = 0 \<and>
             chunks_completed j1 = chunks_completed j) \<or>
          (completed_writes job_id new0 = [(chunks_completed j + 1, chunks_total j)] \<and>
             stitch_triggers job_id new0 =
               (if chunks_completed j + 1 \<ge> chunks_total j \<and> truthy_str (orchestrator_url env)
                then 1 else 0) \<and>
             chunks_completed j1 = chunks_completed j + 1)"
    by blast
  from Cons.IH [OF j1] obtain j' new1 k1 where
    j': "db (process_chunks job_id calls ?s1) job_id = Some j'" and
    tr1: "trace (process_chunks job_id calls ?s1) = trace ?s1 @ new1" and
    k1: "k1 \<le> length calls" and
    tot': "chunks_total j' = chunks_total j1" and
    cnt': "chunks_completed j' = chunks_completed j1 + int k1" and
    cw1: "completed_writes job_id new1 =
            map (\<lambda>i. (chunks_completed j1 + 1 + int i, chunks_total j1)) [0..<k1]" and
    le1: "stitch_triggers job_id new1
            \<le> length (filter (\<lambda>(n, t). n \<ge> t) (completed_writes job_id new1))" and
    eq1: "(\<forall>call \<in> set calls. truthy_str (orchestrator_url (fst call))) \<longrightarrow>
            stitch_triggers job_id new1
              = length (filter (\<lambda>(n, t). n \<ge> t) (completed_writes job_id new1))"
    by blast
  have run: "process_chunks job_id (call # calls) s = process_chunks job_id calls ?s1"
    by (simp add: call)
  from alt show ?case
  proof
    assume a: "completed_writes job_id new0 = [] \<and> stitch_triggers job_id new0 = 0 \<and>
               chunks_completed j1 = chunks_completed j"
    show ?case
      unfolding run
      apply (rule exI [of _ j'], rule exI [of _ "new0 @ new1"], rule exI [of _ k1])
      using j' tr0 tr1 k1 tot' tot1 cnt' cw1 le1 eq1 a
      by simp
  next
    assume a: "completed_writes job_id new0 = [(chunks_completed j + 1, chunks_total j)] \<and>
               stitch_triggers job_id new0 =
                 (if chunks_completed j + 1 \<ge> chunks_total j \<and> truthy_str (orchestrator_url env)
                  then 1 else 0) \<and>
               chunks_completed j1 = chunks_completed j + 1"
    have cw: "completed_writes job_id (new0 @ new1) =
              map (\<lambda>i. (chunks_completed j + 1 + int i, chunks_total j)) [0..<Suc k1]"
      using a cw1 tot1 shifted_counts [of "chunks_completed j" "chunks_total j" k1]
      by simp
    show ?case
      unfolding run
      apply (rule exI [of _ j'], rule exI [of _ "new0 @ new1"], rule exI [of _ "Suc k1"])
      unfolding cw [symmetric]
      using j' tr0 tr1 k1 tot' tot1 cnt' le1 eq1 a
      by (auto simp: call)
  qed
qed

lemma count_equal_total:
  "length (filter (\<lambda>(n, t). n = t) (map (\<lambda>i. (a + 1 + int i, t0)) [0..<k])) =
     (if a < t0 \<and> t0 \<le> a + int k then 1 else 0)"
  by (induction k) auto


text \<open>The one-chunk job, completed twice for the same chunk (a redelivered task).\<close>

lemma one_chunk_twice:
  "process_chunks ''j1''
      [(demo_worker, ''chunk_000.mp4''), (demo_worker, ''chunk_000.mp4'')] one_chunk_system =
   \<lparr> db = [''j1'' \<mapsto> demo_job\<lparr>status := PROCESSING, chunks_total := 1, chunks_completed := 2\<rparr>],
     blobs = [(''input/j1/chunk_000.mp4'', [7]), (''output/j1/chunk_000.mp4'', [7])],
     trace = [StatusWrite ''j1'' PROCESSING, BlobPut ''output/j1/chunk_000.mp4'' [7],
              CompletedWrite ''j1'' 1 1, StitchTrigger ''j1'',
              StatusWrite ''j1'' PROCESSING, BlobPut ''output/j1/chunk_000.mp4'' [7],
              CompletedWrite ''j1'' 2 1, StitchTrigger ''j1''] \<rparr>"
  by (simp add: process_chunk_def doc_update_def one_chunk_system_def demo_worker_def
        job_config_def get_config_for_profile_def apply_mandates_def fetch_input_def
        blob_get_def input_path_def output_path_def blob_put_def update_progress_def
        trigger_stitch_def demo_job_def Let_def dict_get_default_def)

text \<open>
  Claim C1, as stated, fails: the worker compares \<^verbatim>\<open>completed >= total\<close>, so a call whose
  post-increment value is above the total triggers the Stitcher as well.  For the job
  of one chunk, completed twice, the second call observes 2 against a total of 1 and
  the trace holds two stitch triggers.
\<close>

theorem duplicate_completion_triggers_counterexample:
  "completed_writes ''j1''
     (trace (process_chunks ''j1''
        [(demo_worker, ''chunk_000.mp4''), (demo_worker, ''chunk_000.mp4'')] one_chunk_system))
     = [(1, 1), (2, 1)] \<and>
   stitch_triggers ''j1''
     (trace (process_chunks ''j1''
        [(demo_worker, ''chunk_000.mp4''), (demo_worker, ''chunk_000.mp4'')] one_chunk_system))
     = 2"
  unfolding one_chunk_twice by (simp add: stitch_triggers_def)


text \<open>
  Claim C1, amended.  In a run of completion calls for a job, the calls that increment
  the counter observe the consecutive values \<open>c + 1, c + 2, \<dots>\<close> against an unchanged
  total, so exactly one of them observes a value equal to the total if the counter
  starts below the total and reaches it, and none otherwise.  The number of stitch
  triggers is at most the number of calls that observe a value at or above the total,
  and equals it when \<^verbatim>\<open>ORCHESTRATOR_URL\<close> is set in every call.  Call by call: a call
  sends the stitch trigger exactly when it incremented the counter, its post-increment
  value is at or above the total, and the URL is set; below the total it never does.
\<close>

theorem stitch_trigger_at_or_above_total:
  assumes "db s job_id = Some j"
  shows
    "(\<exists>new k.
        trace (process_chunks job_id calls s) = trace s @ new \<and> k \<le> length calls \<and>
        completed_writes job_id new =
          map (\<lambda>i. (chunks_completed j + 1 + int i, chunks_total j)) [0..<k] \<and>
        length (filter (\<lambda>(n, t). n = t) (completed_writes job_id new)) =
          (if chunks_completed j < chunks_total j \<and> chunks_total j \<le> chunks_completed j + int k
           then 1 else 0) \<and>
        stitch_triggers job_id new
          \<le> length (filter (\<lambda>(n, t). n \<ge> t) (completed_writes job_id new)) \<and>
        ((\<forall>call \<in> set calls. truthy_str (orchestrator_url (fst call))) \<longrightarrow>
           stitch_triggers job_id new
             = length (filter (\<lambda>(n, t). n \<ge> t) (completed_writes job_id new)))) \<and>
     (\<forall>env c.
        stitch_triggers job_id
          (drop (length (trace s)) (trace (fst (process_chunk env job_id c s)))) =
        (if snd (process_chunk env job_id c s) = Inr (RespChunkProcessed c) \<and>
            chunks_completed j + 1 \<ge> chunks_total j \<and> truthy_str (orchestrator_url env)
         then 1 else 0))"
proof (intro conjI allI)
  from process_chunks_run [OF assms, of calls] obtain j' new k where
    *: "trace (process_chunks job_id calls s) = trace s @ new" "k \<le> length calls"
       "completed_writes job_id new =
          map (\<lambda>i. (chunks_completed j + 1 + int i, chunks_total j)) [0..<k]"
       "stitch_triggers job_id new
          \<le> length (filter (\<lambda>(n, t). n \<ge> t) (completed_writes job_id new))"
       "(\<forall>call \<in> set calls. truthy_str (orchestrator_url (fst call))) \<longrightarrow>
           stitch_triggers job_id new
             = length (filter (\<lambda>(n, t). n \<ge> t) (completed_writes job_id new))"
    by blast
  have "length (filter (\<lambda>(n, t). n = t) (completed_writes job_id new)) =
          (if chunks_completed j < chunks_total j \<and> chunks_total j \<le> chunks_completed j + int k
           then 1 else 0)"
    unfolding *(3) by (rule count_equal_total)
  with * show "\<exists>new k.
        trace (process_chunks job_id calls s) = trace s @ new \<and> k \<le> length calls \<and>
        completed_writes job_id new =
          map (\<lambda>i. (chunks_completed j + 1 + int i, chunks_total j)) [0..<k] \<and>
        length (filter (\<lambda>(n, t). n = t) (completed_writes job_id new)) =
          (if chunks_completed j < chunks_total j \<and> chunks_total j \<le> chunks_completed j + int k
           then 1 else 0) \<and>
        stitch_triggers job_id new
          \<le> length (filter (\<lambda>(n, t). n \<ge> t) (completed_writes job_id new)) \<and>
        ((\<forall>call \<in> set calls. truthy_str (orchestrator_url (fst call))) \<longrightarrow>
           stitch_triggers job_id new
             = length (filter (\<lambda>(n, t). n \<ge> t) (completed_writes job_id new)))"
    by blast
next
  fix env c
  from process_chunk_step [OF assms, of env c]
  show "stitch_triggers job_id
          (drop (length (trace s)) (trace (fst (process_chunk env job_id c s)))) =
        (if snd (process_chunk env job_id c s) = Inr (RespChunkProcessed c) \<and>
            chunks_completed j + 1 \<ge> chunks_total j \<and> truthy_str (orchestrator_url env)
         then 1 else 0)"
    by (elim exE conjE disjE) simp_all
qed


theorem stitch_trigger_at_or_above_total_witness:
  "stitch_triggers ''j1''
     (drop (length (trace one_chunk_system))
        (trace (fst (process_chunk demo_worker ''j1'' ''chunk_000.mp4'' one_chunk_system)))) = 1"
proof -
  have h: "db one_chunk_system ''j1'' = Some (demo_job\<lparr>chunks_total := 1, chunks_completed := 0\<rparr>)"
    by (simp add: one_chunk_system_def)
  have r: "snd (process_chunk demo_worker ''j1'' ''chunk_000.mp4'' one_chunk_system)
             = Inr (RespChunkProcessed ''chunk_000.mp4'')"
    by (simp add: process_chunk_def doc_update_def one_chunk_system_def demo_worker_def
        job_config_def get_config_for_profile_def apply_mandates_def fetch_input_def
        blob_get_def input_path_def output_path_def blob_put_def update_progress_def
        trigger_stitch_def demo_job_def Let_def dict_get_default_def)
  from stitch_trigger_at_or_above_total [OF h, of "[]"]
  have "stitch_triggers ''j1''
     (drop (length (trace one_chunk_system))
        (trace (fst (process_chunk demo_worker ''j1'' ''chunk_000.mp4'' one_chunk_system)))) =
        (if snd (process_chunk demo_worker ''j1'' ''chunk_000.mp4'' one_chunk_system)
              = Inr (RespChunkProcessed ''chunk_000.mp4'') \<and>
            chunks_completed (demo_job\<lparr>chunks_total := 1, chunks_completed := 0\<rparr>) + 1
              \<ge> chunks_total (demo_job\<lparr>chunks_total := 1, chunks_completed := 0\<rparr>) \<and>
            truthy_str (orchestrator_url demo_worker)
         then 1 else 0)"
    by blast
  then show ?thesis
    unfolding r by (simp add: demo_worker_def)
qed


lemma process_chunk_reaches:
  assumes "db s job_id = Some j"
    and "imwrite_dummy env (''/tmp/'' @ c) \<noteq> None"
    and "\<forall>content. video_capture env content \<noteq> None"
  shows "snd (process_chunk env job_id c s) = Inr (RespChunkProcessed c)"
proof -
  let ?s1 = "s\<lparr>db := (db s)(job_id \<mapsto> j\<lparr>status := PROCESSING\<rparr>),
               trace := trace s @ [StatusWrite job_id PROCESSING]\<rparr>"
  obtain cfg where cfg: "job_config (j\<lparr>status := PROCESSING\<rparr>) = Inr cfg"
    using job_config_total by blast
  obtain dummy where dummy: "imwrite_dummy env (''/tmp/'' @ c) = Some dummy"
    using assms(2) by blast
  obtain local_input where inp: "fetch_input env job_id c ?s1 = Inr local_input"
    unfolding fetch_input_def dummy by (cases "blob_get (input_path job_id c) ?s1") auto
  obtain frames where frames: "video_capture env local_input = Some frames"
    using assms(3) by blast
  show ?thesis
    using assms(1) cfg inp frames
    by (simp add: process_chunk_def doc_update_def Let_def update_progress_def blob_put_def)
qed

lemma length_chunk_responses [simp]:
  "length (chunk_responses job_id calls s) = length calls"
  by (induction job_id calls s rule: chunk_responses.induct) auto

lemma chunk_run_count:
  assumes "db s job_id = Some j"
  shows "\<exists>j'. db (process_chunks job_id calls s) job_id = Some j' \<and>
              chunks_total j' = chunks_total j \<and>
              chunks_completed j' =
                chunks_completed j
                + int (length (filter is_chunk_processed (chunk_responses job_id calls s)))"
  using assms
proof (induction calls arbitrary: s j)
  case Nil
  then show ?case by simp
next
  case (Cons call calls)
  obtain env c where call: "call = (env, c)" by (cases call)
  let ?s1 = "fst (process_chunk env job_id c s)"
  let ?r = "snd (process_chunk env job_id c s)"
  from process_chunk_step [OF Cons.prems, of env c] obtain j1 where
    j1: "db ?s1 job_id = Some j1" and
    tot1: "chunks_total j1 = chunks_total j" and
    alt: "(chunks_completed j1 = chunks_completed j \<and> ?r \<noteq> Inr (RespChunkProcessed c)) \<or>
          (chunks_completed j1 = chunks_completed j + 1 \<and> ?r = Inr (RespChunkProcessed c))"
    by blast
  have other: "\<not> is_chunk_processed ?r" if "?r \<noteq> Inr (RespChunkProcessed c)"
  proof -
    from process_chunk_cases [OF Cons.prems, of env c]
    have "?r \<in> {Inl Cv2Error, Inr RespCouldNotOpen, Inr (RespChunkProcessed c)}"
      by auto
    with that show ?thesis by auto
  qed
  from alt have step: "chunks_completed j1 =
      chunks_completed j + int (length (filter is_chunk_processed [?r]))"
    using other by auto
  from Cons.IH [OF j1] obtain j' where
    "db (process_chunks job_id calls ?s1) job_id = Some j'"
    "chunks_total j' = chunks_total j1"
    "chunks_completed j' =
       chunks_completed j1
       + int (length (filter is_chunk_processed (chunk_responses job_id calls ?s1)))"
    by blast
  with tot1 step show ?case
    by (intro exI [of _ j']) (simp add: call)
qed

lemma chunk_run_all_processed:
  assumes "db s job_id = Some j"
    and "\<forall>call \<in> set calls.
           imwrite_dummy (fst call) (''/tmp/'' @ snd call) \<noteq> None \<and>
           (\<forall>content. video_capture (fst call) content \<noteq> None)"
  shows "filter is_chunk_processed (chunk_responses job_id calls s) = chunk_responses job_id calls s"
  using assms
proof (induction calls arbitrary: s j)
  case Nil
  then show ?case by simp
next
  case (Cons call calls)
  obtain env c where call: "call = (env, c)" by (cases call)
  have r: "snd (process_chunk env job_id c s) = Inr (RespChunkProcessed c)"
    using Cons.prems by (intro process_chunk_reaches [of s job_id j]) (simp_all add: call)
  from process_chunk_step [OF Cons.prems(1), of env c] obtain j1 where
    j1: "db (fst (process_chunk env job_id c s)) job_id = Some j1"
    by blast
  from Cons.IH [OF j1] Cons.prems(2) show ?case
    by (simp add: call r)
qed

text \<open>
  Claim C3, as stated, fails: the transaction adds one on every call and nothing
  recognises a redelivered chunk.  The same chunk completed twice leaves
  \<open>chunks_completed = 2\<close> against \<open>chunks_total = 1\<close>.
\<close>

theorem duplicates_exceed_total_counterexample:
  "map_option chunks_completed
     (db (process_chunks ''j1''
        [(demo_worker, ''chunk_000.mp4''), (demo_worker, ''chunk_000.mp4'')] one_chunk_system) ''j1'')
     = Some 2 \<and>
   map_option chunks_total
     (db (process_chunks ''j1''
        [(demo_worker, ''chunk_000.mp4''), (demo_worker, ''chunk_000.mp4'')] one_chunk_system) ''j1'')
     = Some 1"
  unfolding one_chunk_twice by simp


text \<open>
  Claim C3, amended.  After any run of completion calls for a job, \<open>chunks_total\<close> is
  unchanged and \<open>chunks_completed\<close> has grown by exactly the number of calls that
  returned \<^verbatim>\<open>chunk_processed\<close>, duplicates included: every call that reaches the
  progress transaction is counted.  In particular, when in every call the dummy can be
  written and the video opens, every call is counted and the counter grows by the
  number of calls.  So \<open>0 \<le> chunks_completed\<close> is kept, and
  \<open>chunks_completed \<le> chunks_total\<close> holds as long as the number of calls, duplicates
  included, does not exceed what was left to complete.
\<close>

theorem completed_counts_every_call:
  assumes "db s job_id = Some j"
  shows "\<exists>j'.
           db (process_chunks job_id calls s) job_id = Some j' \<and>
           chunks_total j' = chunks_total j \<and>
           chunks_completed j' =
             chunks_completed j
             + int (length (filter is_chunk_processed (chunk_responses job_id calls s))) \<and>
           ((\<forall>call \<in> set calls.
               imwrite_dummy (fst call) (''/tmp/'' @ snd call) \<noteq> None \<and>
               (\<forall>content. video_capture (fst call) content \<noteq> None)) \<longrightarrow>
              chunks_completed j' = chunks_completed j + int (length calls)) \<and>
           (0 \<le> chunks_completed j \<longrightarrow> 0 \<le> chunks_completed j') \<and>
           (chunks_completed j + int (length calls) \<le> chunks_total j \<longrightarrow>
              chunks_completed j' \<le> chunks_total j')"
proof -
  from chunk_run_count [OF assms, of calls] obtain j' where
    *: "db (process_chunks job_id calls s) job_id = Some j'"
       "chunks_total j' = chunks_total j"
       "chunks_completed j' =
          chunks_completed j
          + int (length (filter is_chunk_processed (chunk_responses job_id calls s)))"
    by blast
  have le: "length (filter is_chunk_processed (chunk_responses job_id calls s)) \<le> length calls"
    using length_filter_le [of is_chunk_processed "chunk_responses job_id calls s"] by simp
  have all: "length (filter is_chunk_processed (chunk_responses job_id calls s)) = length calls"
    if "\<forall>call \<in> set calls.
               imwrite_dummy (fst call) (''/tmp/'' @ snd call) \<noteq> None \<and>
               (\<forall>content. video_capture (fst call) content \<noteq> None)"
    using chunk_run_all_processed [OF assms that] by simp
  show ?thesis
    using * le all by (intro exI [of _ j']) auto
qed

theorem completed_counts_every_call_witness:
  "\<exists>j'. db (process_chunks ''j1'' [(demo_worker, ''chunk_000.mp4'')] one_chunk_system) ''j1''
           = Some j' \<and>
         chunks_total j' = 1 \<and> chunks_completed j' = 1 \<and> chunks_completed j' \<le> chunks_total j'"
proof -
  have h: "db one_chunk_system ''j1'' = Some (demo_job\<lparr>chunks_total := 1, chunks_completed := 0\<rparr>)"
    by (simp add: one_chunk_system_def)
  have ok: "\<forall>call \<in> set [(demo_worker, ''chunk_000.mp4'')].
               imwrite_dummy (fst call) (''/tmp/'' @ snd call) \<noteq> None \<and>
               (\<forall>content. video_capture (fst call) content \<noteq> None)"
    by (simp add: demo_worker_def)
  from completed_counts_every_call [OF h, of "[(demo_worker, ''chunk_000.mp4'')]"] ok
  show ?thesis by (auto simp del: process_chunks.simps chunk_responses.simps)
qed

section \<open>Status writes\<close>

lemma stitch_video_status:
  assumes "db s job_id = Some j"
  shows "\<exists>j'. db (fst (stitch_video env job_id s)) job_id = Some j' \<and>
              status j' = (case concat_files env (concat_inputs (chunk_blobs job_id s)) of
                             None \<Rightarrow> STITCHING | Some out \<Rightarrow> COMPLETED)"
proof -
  let ?s1 = "s\<lparr>db := (db s)(job_id \<mapsto> j\<lparr>status := STITCHING\<rparr>),
               trace := trace s @ [StatusWrite job_id STITCHING]\<rparr>"
  have s1: "doc_update job_id (\<lambda>j. j\<lparr>status := STITCHING\<rparr>) (StatusWrite job_id STITCHING) s = Inr ?s1"
    using assms by (simp add: doc_update_def)
  have cb: "chunk_blobs job_id ?s1 = chunk_blobs job_id s"
    by (simp add: chunk_blobs_def list_blobs_def)
  show ?thesis
  proof (cases "concat_files env (concat_inputs (chunk_blobs job_id s))")
    case None
    then show ?thesis
      unfolding stitch_video_def s1 by (simp add: cb)
  next
    case (Some out)
    then show ?thesis
      unfolding stitch_video_def s1
      by (simp add: cb Let_def doc_update_def blob_put_def)
  qed
qed


text \<open>
  Claim C2, as stated, fails: no status write looks at the current status.  For a job
  that was erased (status \<open>CANCELLED\<close>), a late chunk-completion call sets the status to
  \<open>PROCESSING\<close>, and a stitch request sets it to \<open>STITCHING\<close> and then \<open>COMPLETED\<close>.
\<close>

theorem cancelled_job_revived_counterexample:
  "map_option status (db cancelled_system ''j1'') = Some CANCELLED \<and>
   map_option status
     (db (fst (process_chunk demo_worker ''j1'' ''chunk_000.mp4'' cancelled_system)) ''j1'')
     = Some PROCESSING \<and>
   map_option status (db (fst (stitch_video demo_orchestrator ''j1'' cancelled_system)) ''j1'')
     = Some COMPLETED"
  by (simp add: process_chunk_def doc_update_def cancelled_system_def demo_worker_def
        job_config_def get_config_for_profile_def apply_mandates_def fetch_input_def
        blob_get_def input_path_def output_path_def blob_put_def update_progress_def
        trigger_stitch_def demo_job_def Let_def dict_get_default_def
        stitch_video_def demo_orchestrator_def chunk_blobs_def list_blobs_def
        concat_inputs_def)

text \<open>
  Claim C2, amended.  For every existing job, whatever its current status (a terminal
  one included), a chunk-completion call leaves the status \<open>PROCESSING\<close>, and a stitch
  request leaves it \<open>COMPLETED\<close> when the concat run succeeds and \<open>STITCHING\<close> when it
  fails: every status write is unconditional.
\<close>

theorem status_writes_unconditional:
  assumes "db s job_id = Some j"
  shows
    "(\<exists>j'. db (fst (process_chunk wenv job_id c s)) job_id = Some j' \<and> status j' = PROCESSING) \<and>
     (\<exists>j'. db (fst (stitch_video oenv job_id s)) job_id = Some j' \<and>
           status j' = (case concat_files oenv (concat_inputs (chunk_blobs job_id s)) of
                          None \<Rightarrow> STITCHING | Some out \<Rightarrow> COMPLETED))"
  using process_chunk_step [OF assms, of wenv c] stitch_video_status [OF assms, of oenv]
  by blast

theorem status_writes_unconditional_witness:
  "(\<exists>j'. db (fst (process_chunk demo_worker ''j1'' ''chunk_000.mp4'' cancelled_system)) ''j1''
           = Some j' \<and> status j' = PROCESSING) \<and>
   (\<exists>j'. db (fst (stitch_video demo_orchestrator ''j1'' cancelled_system)) ''j1'' = Some j' \<and>
         status j' = COMPLETED)"
proof -
  have h: "db cancelled_system ''j1''
             = Some (demo_job\<lparr>status := CANCELLED, chunks_total := 1, chunks_completed := 0\<rparr>)"
    by (simp add: cancelled_system_def)
  have c: "concat_files demo_orchestrator (concat_inputs (chunk_blobs ''j1'' cancelled_system)) = Some []"
    by (simp add: demo_orchestrator_def chunk_blobs_def list_blobs_def cancelled_system_def
          concat_inputs_def)
  from status_writes_unconditional [OF h, of demo_worker "''chunk_000.mp4''" demo_orchestrator]
  show ?thesis
    unfolding c by simp
qed

section \<open>A chunk that is missing from the bucket\<close>

lemma job_config_status [simp]: "job_config (j\<lparr>status := st\<rparr>) = job_config j"
  by (simp add: job_config_def)

text \<open>
  Claim C10, as stated, fails: after the dummy is written the worker still tests
  \<^verbatim>\<open>cap.isOpened()\<close>.  When the file does not open as a video the call returns the
  error response, uploads nothing and leaves the counter alone.
\<close>

theorem missing_chunk_not_counted_counterexample:
  "blob_get (input_path ''j1'' ''chunk_000.mp4'') missing_chunk_system = None \<and>
   snd (process_chunk blind_worker ''j1'' ''chunk_000.mp4'' missing_chunk_system)
     = Inr RespCouldNotOpen \<and>
   blobs (fst (process_chunk blind_worker ''j1'' ''chunk_000.mp4'' missing_chunk_system)) = [] \<and>
   map_option chunks_completed
     (db (fst (process_chunk blind_worker ''j1'' ''chunk_000.mp4'' missing_chunk_system)) ''j1'')
     = Some 0"
  by (simp add: process_chunk_def doc_update_def missing_chunk_system_def demo_worker_def
        blind_worker_def job_config_def get_config_for_profile_def apply_mandates_def
        fetch_input_def blob_get_def input_path_def demo_job_def dict_get_default_def Let_def)


text \<open>
  Claim C10, amended.  For every chunk-processing call whose input blob does not exist,
  the job is never marked failed (its status is \<open>PROCESSING\<close> afterwards).  If the dummy
  image is written and the file written opens as a video, the worker uploads the
  artifact made from the dummy to the output path, increments \<open>chunks_completed\<close> and
  reports the chunk as processed: the missing chunk counts as completed.  If the file
  does not open, the call returns the error response, and if the dummy cannot be
  written the call raises; in both cases nothing is uploaded and the counter is
  unchanged.
\<close>

theorem missing_chunk_replaced_by_dummy:
  assumes "db s job_id = Some j" and "blob_get (input_path job_id c) s = None"
  shows
    "\<exists>j' cfg.
       db (fst (process_chunk env job_id c s)) job_id = Some j' \<and> status j' = PROCESSING \<and>
       job_config j = Inr cfg \<and>
       (case imwrite_dummy env (''/tmp/'' @ c) of
          None \<Rightarrow>
            snd (process_chunk env job_id c s) = Inl Cv2Error \<and>
            blobs (fst (process_chunk env job_id c s)) = blobs s \<and>
            chunks_completed j' = chunks_completed j
        | Some dummy \<Rightarrow>
            (case video_capture env dummy of
               None \<Rightarrow>
                 snd (process_chunk env job_id c s) = Inr RespCouldNotOpen \<and>
                 blobs (fst (process_chunk env job_id c s)) = blobs s \<and>
                 chunks_completed j' = chunks_completed j
             | Some frames \<Rightarrow>
                 snd (process_chunk env job_id c s) = Inr (RespChunkProcessed c) \<and>
                 blob_get (output_path job_id c) (fst (process_chunk env job_id c s))
                   = Some (video_writer env (map (detect_and_redact env cfg) frames)) \<and>
                 chunks_completed j' = chunks_completed j + 1))"
proof -
  obtain cfg where cfg: "job_config j = Inr cfg"
    using job_config_total by blast
  show ?thesis
    using assms cfg
    by (auto simp: process_chunk_def doc_update_def fetch_input_def blob_get_def Let_def
          blob_put_def update_progress_def trigger_stitch_def update_conv'
        split: option.splits)
qed

theorem missing_chunk_replaced_by_dummy_witness:
  "snd (process_chunk demo_worker ''j1'' ''chunk_000.mp4'' missing_chunk_system)
     = Inr (RespChunkProcessed ''chunk_000.mp4'') \<and>
   (\<exists>j'. db (fst (process_chunk demo_worker ''j1'' ''chunk_000.mp4'' missing_chunk_system)) ''j1''
            = Some j' \<and> chunks_completed j' = 1)"
proof -
  have h1: "db missing_chunk_system ''j1''
              = Some (demo_job\<lparr>chunks_total := 1, chunks_completed := 0\<rparr>)"
    by (simp add: missing_chunk_system_def)
  have h2: "blob_get (input_path ''j1'' ''chunk_000.mp4'') missing_chunk_system = None"
    by (simp add: blob_get_def missing_chunk_system_def)
  from missing_chunk_replaced_by_dummy [OF h1 h2, of demo_worker]
  show ?thesis
    by (auto simp: demo_worker_def)
qed

section \<open>Erasure\<close>

text \<open>Object names in the bucket are distinct, and uploads and deletions keep them so.\<close>

lemma blob_put_distinct:
  "distinct (map fst (blobs s)) \<Longrightarrow> distinct (map fst (blobs (blob_put p c s)))"
  by (simp add: blob_put_def distinct_update)

lemma blob_delete_distinct:
  "distinct (map fst (blobs s)) \<Longrightarrow> blob_delete p s = Inr s' \<Longrightarrow> distinct (map fst (blobs s'))"
  by (auto simp: blob_delete_def distinct_delete split: option.splits)

lemma delete_blobs_distinct:
  "distinct names \<Longrightarrow> set names \<subseteq> fst ` set (blobs s) \<Longrightarrow>
   delete_blobs names s =
     (s\<lparr>blobs := filter (\<lambda>b. fst b \<notin> set names) (blobs s),
        trace := trace s @ map BlobDelete names\<rparr>, None)"
proof (induction names arbitrary: s)
  case Nil
  then show ?case by simp
next
  case (Cons n names)
  from Cons.prems obtain c where c: "map_of (blobs s) n = Some c"
    by (cases "map_of (blobs s) n") (auto simp: map_of_eq_None_iff)
  let ?s1 = "s\<lparr>blobs := AList.delete n (blobs s), trace := trace s @ [BlobDelete n]\<rparr>"
  have step: "blob_delete n s = Inr ?s1"
    by (simp add: blob_delete_def c)
  have sub: "set names \<subseteq> fst ` set (blobs ?s1)"
    using Cons.prems by (force simp: AList.delete_eq)
  have "delete_blobs names ?s1 =
      (?s1\<lparr>blobs := filter (\<lambda>b. fst b \<notin> set names) (blobs ?s1),
           trace := trace ?s1 @ map BlobDelete names\<rparr>, None)"
    using Cons.IH [OF _ sub] Cons.prems by simp
  moreover have "filter (\<lambda>b. fst b \<notin> set names) (AList.delete n (blobs s)) =
      filter (\<lambda>b. fst b \<notin> set (n # names)) (blobs s)"
    by (auto simp: AList.delete_eq intro: filter_cong)
  ultimately show ?case
    by (simp add: step)
qed

lemma input_output_disjoint:
  "prefix (''input/'' @ a) n \<Longrightarrow> \<not> prefix (''output/'' @ b) n"
  by (cases n) auto

lemma listed_distinct:
  assumes "distinct (map fst bs)"
  shows "distinct (map fst (filter (\<lambda>b. prefix (''input/'' @ j) (fst b)) bs)
                   @ map fst (filter (\<lambda>b. prefix (''output/'' @ j) (fst b)) bs))"
  using assms input_output_disjoint [of j _ j]
  by (auto simp: distinct_map_filter)

text \<open>
  Claim C9.  For every existing job id, on a bucket whose object names are distinct,
  erasure called twice in a row returns \<^verbatim>\<open>CANCELLED\<close> both times; after the first call
  nothing is left under the job's input and output prefixes, so the second call deletes
  nothing (the blobs are unchanged and its only effect is the status write), and the
  job's status is \<open>CANCELLED\<close> after each call.
\<close>

theorem erasure_twice:
  assumes "db s job_id = Some j" and "distinct (map fst (blobs s))"
  shows "\<exists>s1 s2 j1.
           delete_job job_id s = (s1, Inr RespCancelled) \<and>
           delete_job job_id s1 = (s2, Inr RespCancelled) \<and>
           list_blobs (''input/'' @ job_id) s1 = [] \<and>
           list_blobs (''output/'' @ job_id) s1 = [] \<and>
           blobs s2 = blobs s1 \<and>
           trace s2 = trace s1 @ [StatusWrite job_id CANCELLED] \<and>
           db s1 job_id = Some j1 \<and> status j1 = CANCELLED \<and>
           db s2 = db s1"
proof -
  let ?listed = "map fst (list_blobs (''input/'' @ job_id) s)
                 @ map fst (list_blobs (''output/'' @ job_id) s)"
  let ?s0 = "s\<lparr>blobs := filter (\<lambda>b. fst b \<notin> set ?listed) (blobs s),
               trace := trace s @ map BlobDelete ?listed\<rparr>"
  have d: "distinct ?listed"
    using listed_distinct [OF assms(2)] by (simp add: list_blobs_def)
  have sub: "set ?listed \<subseteq> fst ` set (blobs s)"
    by (auto simp: list_blobs_def)
  have del: "delete_blobs ?listed s = (?s0, None)"
    by (rule delete_blobs_distinct [OF d sub])
  let ?j1 = "j\<lparr>status := CANCELLED\<rparr>"
  let ?s1 = "?s0\<lparr>db := (db ?s0)(job_id \<mapsto> ?j1), trace := trace ?s0 @ [StatusWrite job_id CANCELLED]\<rparr>"
  have first: "delete_job job_id s = (?s1, Inr RespCancelled)"
    unfolding delete_job_def Let_def del
    using assms(1) by (simp add: doc_update_def)
  have in_empty: "list_blobs (''input/'' @ job_id) ?s1 = []"
    by (auto simp: list_blobs_def filter_empty_conv)
  have out_empty: "list_blobs (''output/'' @ job_id) ?s1 = []"
    by (auto simp: list_blobs_def filter_empty_conv)
  let ?s2 = "?s1\<lparr>db := (db ?s1)(job_id \<mapsto> ?j1), trace := trace ?s1 @ [StatusWrite job_id CANCELLED]\<rparr>"
  have second: "delete_job job_id ?s1 = (?s2, Inr RespCancelled)"
    unfolding delete_job_def Let_def in_empty out_empty
    by (simp add: doc_update_def)
  show ?thesis
    using first second in_empty out_empty by (intro exI [of _ ?s1] exI [of _ ?s2] exI [of _ ?j1]) simp
qed

theorem erasure_twice_witness:
  "\<exists>s1 s2. delete_job ''j1'' demo_system = (s1, Inr RespCancelled) \<and>
           delete_job ''j1'' s1 = (s2, Inr RespCancelled) \<and>
           blobs s1 = [(''input/j2/original.mp4'', [4])] \<and> blobs s2 = blobs s1"
proof -
  have h1: "db demo_system ''j1'' = Some demo_job"
    by (simp add: demo_system_def)
  have h2: "distinct (map fst (blobs demo_system))"
    by (simp add: demo_system_def)
  from erasure_twice [OF h1 h2] obtain s1 s2 where
    *: "delete_job ''j1'' demo_system = (s1, Inr RespCancelled)"
       "delete_job ''j1'' s1 = (s2, Inr RespCancelled)" "blobs s2 = blobs s1"
    by blast
  have "blobs (fst (delete_job ''j1'' demo_system)) = [(''input/j2/original.mp4'', [4])]"
    by (simp add: delete_job_def demo_system_def list_blobs_def blob_delete_def
          doc_update_def AList.delete_eq Let_def)
  with * show ?thesis by auto
qed

section \<open>Ingest: planning and dispatch\<close>

lemma total_writes_append [simp]:
  "total_writes job_id (xs @ ys) = total_writes job_id xs @ total_writes job_id ys"
  by (induction job_id xs rule: total_writes.induct) auto

lemma blob_put_fields [simp]:
  "db (blob_put p c s) = db s"
  "trace (blob_put p c s) = trace s @ [BlobPut p c]"
  "blob_get q (blob_put p c s) = (if q = p then Some c else blob_get q s)"
  "fst ` set (blobs (blob_put p c s)) = insert p (fst ` set (blobs s))"
  by (simp_all add: blob_put_def blob_get_def dom_update update_conv')

lemma upload_chunks_result:
  "\<exists>s'. upload_chunks job_id files s acc = (s', acc @ map (clean_name job_id \<circ> fst) files) \<and>
        db s' = db s \<and>
        trace s' =
          trace s @ map (\<lambda>f. BlobPut (input_path job_id (clean_name job_id (fst f))) (snd f)) files \<and>
        (\<forall>p. blob_get p s' =
           (case map_of (rev (map (\<lambda>f. (input_path job_id (clean_name job_id (fst f)), snd f)) files)) p of
              Some b \<Rightarrow> Some b
            | None \<Rightarrow> blob_get p s))"
proof (induction files arbitrary: s acc)
  case Nil
  then show ?case by simp
next
  case (Cons f files)
  obtain fpath content where f: "f = (fpath, content)" by (cases f)
  let ?k = "input_path job_id (clean_name job_id fpath)"
  let ?rest = "map (\<lambda>f. (input_path job_id (clean_name job_id (fst f)), snd f)) files"
  from Cons.IH [of "blob_put ?k content s" "acc @ [clean_name job_id fpath]"]
  obtain s' where
    up: "upload_chunks job_id files (blob_put ?k content s) (acc @ [clean_name job_id fpath]) =
           (s', (acc @ [clean_name job_id fpath]) @ map (clean_name job_id \<circ> fst) files)" and
    d: "db s' = db (blob_put ?k content s)" and
    t: "trace s' = trace (blob_put ?k content s)
          @ map (\<lambda>f. BlobPut (input_path job_id (clean_name job_id (fst f))) (snd f)) files" and
    b: "\<forall>p. blob_get p s' =
           (case map_of (rev ?rest) p of
              Some b \<Rightarrow> Some b
            | None \<Rightarrow> blob_get p (blob_put ?k content s))"
    by blast
  have store: "blob_get p s' =
           (case map_of (rev ((?k, content) # ?rest)) p of
              Some b \<Rightarrow> Some b
            | None \<Rightarrow> blob_get p s)" for p
    using b [rule_format, of p]
    by (cases "map_of (rev ?rest) p") (simp_all add: map_add_def)
  show ?case
    apply (rule exI [of _ s'])
    using up d t store by (simp add: f Let_def)
qed

lemma dispatch_result:
  "db (dispatch env job_id pairs s) = db s \<and>
   blobs (dispatch env job_id pairs s) = blobs s \<and>
   trace (dispatch env job_id pairs s) =
     trace s @ map (\<lambda>(i, c). TaskCreated job_id c i)
                 (filter (\<lambda>(i, c). create_task_ok env job_id i) pairs)"
  by (induction env job_id pairs s rule: dispatch.induct) auto

lemma map_of_input_paths:
  "map_of (map (\<lambda>cb. (input_path job_id (fst cb), snd cb)) planned) (input_path job_id c)
     = map_of planned c"
  by (induction planned) (auto simp: input_path_def)

lemma plan_chunks_result:
  assumes "plan_chunks env job_id original s = Inr (s', chunks)"
  shows "\<exists>planned.
           map fst planned = chunks \<and>
           (((\<exists>d. probe_duration env original = Some d \<and> 0 < d \<and> d < 300) \<and>
             planned = [(''chunk_000.mp4'', original)]) \<or>
            (\<not> (\<exists>d. probe_duration env original = Some d \<and> 0 < d \<and> d < 300) \<and>
             (\<exists>generated_files.
                segment env job_id original = Some generated_files \<and>
                planned = map (\<lambda>f. (clean_name job_id (fst f), snd f))
                            (sort_key fst generated_files)))) \<and>
           db s' = db s \<and>
           trace s' = trace s @ map (\<lambda>cb. BlobPut (input_path job_id (fst cb)) (snd cb)) planned \<and>
           (\<forall>c. blob_get (input_path job_id c) s' =
              (case map_of (rev planned) c of
                 Some b \<Rightarrow> Some b
               | None \<Rightarrow> blob_get (input_path job_id c) s))"
proof (cases "\<exists>d. probe_duration env original = Some d \<and> 0 < d \<and> d < 300")
  case True
  then have "(case probe_duration env original of None \<Rightarrow> 0 | Some d \<Rightarrow> d) > 0 \<and>
             (case probe_duration env original of None \<Rightarrow> 0 | Some d \<Rightarrow> d) < CHUNK_DURATION"
    by (auto simp: CHUNK_DURATION_def)
  with assms have "s' = blob_put (input_path job_id ''chunk_000.mp4'') original s"
    and "chunks = [''chunk_000.mp4'']"
    by (auto simp: plan_chunks_def Let_def)
  with True show ?thesis
    by (intro exI [of _ "[(''chunk_000.mp4'', original)]"]) (auto simp: input_path_def)
next
  case False
  then have split: "\<not> ((case probe_duration env original of None \<Rightarrow> 0 | Some d \<Rightarrow> d) > 0 \<and>
              (case probe_duration env original of None \<Rightarrow> 0 | Some d \<Rightarrow> d) < CHUNK_DURATION)"
    by (auto simp: CHUNK_DURATION_def split: option.splits)
  with assms obtain files where
    seg: "segment env job_id original = Some files" and
    up: "upload_chunks job_id (sort_key fst files) s [] = (s', chunks)"
    by (auto simp: plan_chunks_def Let_def split: option.splits)
  let ?planned = "map (\<lambda>f. (clean_name job_id (fst f), snd f)) (sort_key fst files)"
  from upload_chunks_result [of job_id "sort_key fst files" s "[]"] up
  have ch: "chunks = map (clean_name job_id \<circ> fst) (sort_key fst files)" and
    d: "db s' = db s" and
    t: "trace s' = trace s @ map (\<lambda>f. BlobPut (input_path job_id (clean_name job_id (fst f))) (snd f))
                               (sort_key fst files)" and
    b: "\<forall>p. blob_get p s' =
           (case map_of (rev (map (\<lambda>f. (input_path job_id (clean_name job_id (fst f)), snd f))
                                (sort_key fst files))) p of
              Some b \<Rightarrow> Some b
            | None \<Rightarrow> blob_get p s)"
    by auto
  have paths: "map (\<lambda>f. (input_path job_id (clean_name job_id (fst f)), snd f)) (sort_key fst files)
                 = map (\<lambda>cb. (input_path job_id (fst cb), snd cb)) ?planned"
    by (simp add: o_def)
  have store: "\<forall>c. blob_get (input_path job_id c) s' =
              (case map_of (rev ?planned) c of
                 Some b \<Rightarrow> Some b
               | None \<Rightarrow> blob_get (input_path job_id c) s)"
    using b map_of_input_paths [of job_id "rev ?planned"]
    unfolding paths by (simp add: rev_map)
  show ?thesis
    using False seg ch d t store
    by (intro exI [of _ ?planned]) (simp add: o_def)
qed

lemma demo_segment_names:
  "segment_path ''j1'' 0 = ''/tmp/j1_chunk_000.mp4''"
  "segment_path ''j1'' 1 = ''/tmp/j1_chunk_001.mp4''"
  "segment_path ''j1'' (Suc 0) = ''/tmp/j1_chunk_001.mp4''"
  "segment_path ''j1'' 2 = ''/tmp/j1_chunk_002.mp4''"
  by code_simp+

lemma demo_clean_names:
  "clean_name ''j1'' ''/tmp/j1_chunk_000.mp4'' = ''chunk_000.mp4''"
  "clean_name ''j1'' ''/tmp/j1_chunk_001.mp4'' = ''chunk_001.mp4''"
  "clean_name ''j1'' ''/tmp/j1_chunk_002.mp4'' = ''chunk_002.mp4''"
  by (simp_all add: clean_name_def basename_def)

text \<open>
  Claim C5, as stated, fails for a failed probe: the fallback duration is 0, the bypass
  requires \<^verbatim>\<open>duration > 0\<close>, so the video goes to the segmenter.  With a failing probe
  and a segmenter that leaves three files, the planner emits three chunks.
\<close>

theorem probe_failure_splits_counterexample:
  "probe_duration unprobed_orchestrator [9] = None \<and>
   map_sum id snd (plan_chunks unprobed_orchestrator ''j1'' [9] queued_system)
     = Inr [''chunk_000.mp4'', ''chunk_001.mp4'', ''chunk_002.mp4'']"
  by (simp add: plan_chunks_def unprobed_orchestrator_def demo_orchestrator_def
        demo_segment_names demo_clean_names CHUNK_DURATION_def Let_def)

text \<open>
  Claim C5, amended.  For every source video whose probed duration \<open>d\<close> satisfies
  \<open>0 < d < 300\<close>, the planner emits exactly one chunk, named \<^verbatim>\<open>chunk_000.mp4\<close>, whose
  stored content is the whole source.  When the probe fails, or reports a duration
  that is not positive or not below 300, the planner runs the segmenter and emits one
  chunk for each file the segmenter leaves, in the order of the sorted file paths (or
  raises when the segmenter fails).
\<close>

theorem short_video_single_chunk:
  "(\<forall>d. probe_duration env original = Some d \<and> 0 < d \<and> d < 300 \<longrightarrow>
        plan_chunks env job_id original s =
          Inr (blob_put (input_path job_id ''chunk_000.mp4'') original s, [''chunk_000.mp4'']) \<and>
        blob_get (input_path job_id ''chunk_000.mp4'')
          (blob_put (input_path job_id ''chunk_000.mp4'') original s) = Some original) \<and>
   (probe_duration env original = None \<or>
    (\<exists>d. probe_duration env original = Some d \<and> (d \<le> 0 \<or> 300 \<le> d)) \<longrightarrow>
      (case segment env job_id original of
         None \<Rightarrow> plan_chunks env job_id original s = Inl CalledProcessError
       | Some generated_files \<Rightarrow>
           \<exists>s'. plan_chunks env job_id original s =
                  Inr (s', map (clean_name job_id \<circ> fst) (sort_key fst generated_files))))"
proof (intro conjI allI impI)
  fix d
  assume "probe_duration env original = Some d \<and> 0 < d \<and> d < 300"
  then show "plan_chunks env job_id original s =
          Inr (blob_put (input_path job_id ''chunk_000.mp4'') original s, [''chunk_000.mp4''])"
    by (simp add: plan_chunks_def CHUNK_DURATION_def)
next
  fix d
  show "blob_get (input_path job_id ''chunk_000.mp4'')
          (blob_put (input_path job_id ''chunk_000.mp4'') original s) = Some original"
    by simp
next
  assume a: "probe_duration env original = None \<or>
    (\<exists>d. probe_duration env original = Some d \<and> (d \<le> 0 \<or> 300 \<le> d))"
  then have split: "\<not> ((case probe_duration env original of None \<Rightarrow> 0 | Some d \<Rightarrow> d) > 0 \<and>
              (case probe_duration env original of None \<Rightarrow> 0 | Some d \<Rightarrow> d) < CHUNK_DURATION)"
    by (auto simp: CHUNK_DURATION_def)
  show "case segment env job_id original of
         None \<Rightarrow> plan_chunks env job_id original s = Inl CalledProcessError
       | Some generated_files \<Rightarrow>
           \<exists>s'. plan_chunks env job_id original s =
                  Inr (s', map (clean_name job_id \<circ> fst) (sort_key fst generated_files))"
  proof (cases "segment env job_id original")
    case None
    with split show ?thesis
      by (simp add: plan_chunks_def Let_def)
  next
    case (Some files)
    from upload_chunks_result [of job_id "sort_key fst files" s "[]"]
    obtain s' where "upload_chunks job_id (sort_key fst files) s [] =
        (s', map (clean_name job_id \<circ> fst) (sort_key fst files))"
      by auto
    with Some split show ?thesis
      by (auto simp: plan_chunks_def Let_def)
  qed
qed

theorem short_video_single_chunk_witness:
  "map_sum id snd (plan_chunks demo_orchestrator ''j1'' [9] queued_system)
     = Inr [''chunk_000.mp4'']"
proof -
  have h: "probe_duration demo_orchestrator [9] = Some 120 \<and> (0::real) < 120 \<and> (120::real) < 300"
    by (simp add: demo_orchestrator_def)
  from short_video_single_chunk [of demo_orchestrator "[9]" "''j1''" queued_system] h
  have "plan_chunks demo_orchestrator ''j1'' [9] queued_system =
          Inr (blob_put (input_path ''j1'' ''chunk_000.mp4'') [9] queued_system, [''chunk_000.mp4''])"
    by blast
  then show ?thesis by simp
qed

lemma total_writes_puts [simp]:
  "total_writes job_id (map (\<lambda>cb. BlobPut (f cb) (g cb)) planned) = []"
  by (induction planned) auto

lemma total_writes_tasks [simp]:
  "total_writes job_id (map (\<lambda>(i, c). TaskCreated job_id c i) pairs) = []"
  by (induction pairs) auto

lemma plan_chunks_error:
  assumes "plan_chunks env job_id original s = Inl e"
  shows "\<not> (\<exists>d. probe_duration env original = Some d \<and> 0 < d \<and> d < 300) \<and>
         segment env job_id original = None"
  using assms
  by (auto simp: plan_chunks_def Let_def CHUNK_DURATION_def split: option.splits if_splits)

lemma ingest_video_cases:
  "(db s job_id = None \<and> ingest_video env job_id s = (s, Inl NotFound)) \<or>
   (\<exists>j. db s job_id = Some j \<and>
        blob_get (input_path job_id ''original.mp4'') s = None \<and>
        ingest_video env job_id s =
          (s\<lparr>db := (db s)(job_id \<mapsto>
                  j\<lparr>status := FAILED, error_message := Some ''Input video not found''\<rparr>),
             trace := trace s @ [StatusWrite job_id CHUNKING, StatusWrite job_id FAILED]\<rparr>,
           Inr RespError)) \<or>
   (\<exists>j original e.
        db s job_id = Some j \<and>
        blob_get (input_path job_id ''original.mp4'') s = Some original \<and>
        \<not> (\<exists>d. probe_duration env original = Some d \<and> 0 < d \<and> d < 300) \<and>
        segment env job_id original = None \<and>
        ingest_video env job_id s =
          (s\<lparr>db := (db s)(job_id \<mapsto> j\<lparr>status := CHUNKING\<rparr>),
             trace := trace s @ [StatusWrite job_id CHUNKING]\<rparr>, Inl e)) \<or>
   (\<exists>j original s2 chunks.
        db s job_id = Some j \<and>
        blob_get (input_path job_id ''original.mp4'') s = Some original \<and>
        plan_chunks env job_id original
          (s\<lparr>db := (db s)(job_id \<mapsto> j\<lparr>status := CHUNKING\<rparr>),
             trace := trace s @ [StatusWrite job_id CHUNKING]\<rparr>) = Inr (s2, chunks) \<and>
        ingest_video env job_id s =
          (dispatch env job_id (zip [0..<length chunks] chunks)
             (s2\<lparr>db := (db s2)(job_id \<mapsto>
                      j\<lparr>status := CHUNKING, chunks_total := int (length chunks)\<rparr>),
                 trace := trace s2 @ [TotalWrite job_id (int (length chunks))]\<rparr>),
           Inr (RespDispatched (length chunks))))"
proof (cases "db s job_id")
  case None
  then show ?thesis
    by (simp add: ingest_video_def doc_update_def)
next
  case (Some j)
  let ?s1 = "s\<lparr>db := (db s)(job_id \<mapsto> j\<lparr>status := CHUNKING\<rparr>),
               trace := trace s @ [StatusWrite job_id CHUNKING]\<rparr>"
  have s1: "doc_update job_id (\<lambda>j. j\<lparr>status := CHUNKING\<rparr>) (StatusWrite job_id CHUNKING) s = Inr ?s1"
    using Some by (simp add: doc_update_def)
  have bg: "blob_get p ?s1 = blob_get p s" for p
    by (simp add: blob_get_def)
  show ?thesis
  proof (cases "blob_get (input_path job_id ''original.mp4'') s")
    case None
    then have "ingest_video env job_id s =
          (s\<lparr>db := (db s)(job_id \<mapsto>
                  j\<lparr>status := FAILED, error_message := Some ''Input video not found''\<rparr>),
             trace := trace s @ [StatusWrite job_id CHUNKING, StatusWrite job_id FAILED]\<rparr>,
           Inr RespError)"
      unfolding ingest_video_def s1 by (simp add: doc_update_def bg)
    with Some None show ?thesis by blast
  next
    case orig: (Some original)
    show ?thesis
    proof (cases "plan_chunks env job_id original ?s1")
      case (Inl e)
      with orig have "ingest_video env job_id s = (?s1, Inl e)"
        unfolding ingest_video_def s1 by (simp add: bg)
      with Some orig plan_chunks_error [OF Inl] show ?thesis by blast
    next
      case (Inr r)
      obtain s2 chunks where r: "r = (s2, chunks)" by (cases r)
      from plan_chunks_result [OF Inr [unfolded r]] have d2: "db s2 = db ?s1"
        by blast
      have s3: "doc_update job_id (\<lambda>j. j\<lparr>chunks_total := int (length chunks)\<rparr>)
                  (TotalWrite job_id (int (length chunks))) s2
                  = Inr (s2\<lparr>db := (db s2)(job_id \<mapsto>
                              j\<lparr>status := CHUNKING, chunks_total := int (length chunks)\<rparr>),
                           trace := trace s2 @ [TotalWrite job_id (int (length chunks))]\<rparr>)"
        by (simp add: doc_update_def d2)
      have "ingest_video env job_id s =
          (dispatch env job_id (zip [0..<length chunks] chunks)
             (s2\<lparr>db := (db s2)(job_id \<mapsto>
                      j\<lparr>status := CHUNKING, chunks_total := int (length chunks)\<rparr>),
                 trace := trace s2 @ [TotalWrite job_id (int (length chunks))]\<rparr>),
           Inr (RespDispatched (length chunks)))"
        unfolding ingest_video_def s1 using orig Inr r s3 by (simp add: Let_def bg)
      with Some orig Inr r show ?thesis by blast
    qed
  qed
qed

lemma ingest_video_db_other:
  assumes "k \<noteq> job_id"
  shows "db (fst (ingest_video env job_id s)) k = db s k"
proof -
  have plan: "db s2 = db s1" if "plan_chunks env job_id original s1 = Inr (s2, chunks)"
    for original s1 s2 chunks
    using plan_chunks_result [OF that] by blast
  from ingest_video_cases [of s job_id env] show ?thesis
    using assms by (elim disjE exE conjE) (auto simp: dispatch_result dest: plan)
qed

lemma delete_blobs_db [simp]: "db (fst (delete_blobs names s)) = db s"
  by (induction names arbitrary: s) (auto simp: blob_delete_def split: option.splits)

lemma chunks_total_preserved:
  "map_option chunks_total (db (fst (process_chunk wenv job_id c s)) k)
     = map_option chunks_total (db s k)"
  "map_option chunks_total (db (fst (stitch_video oenv job_id s)) k)
     = map_option chunks_total (db s k)"
  "map_option chunks_total (db (fst (delete_job job_id s)) k)
     = map_option chunks_total (db s k)"
proof -
  show "map_option chunks_total (db (fst (process_chunk wenv job_id c s)) k)
     = map_option chunks_total (db s k)"
  proof (cases "db s job_id")
    case None
    then show ?thesis by (simp add: process_chunk_def doc_update_def)
  next
    case (Some j)
    from process_chunk_cases [OF Some, of wenv c] show ?thesis
      using Some by (elim disjE exE conjE) auto
  qed
  show "map_option chunks_total (db (fst (stitch_video oenv job_id s)) k)
     = map_option chunks_total (db s k)"
    by (auto simp: stitch_video_def doc_update_def Let_def blob_put_def
          split: option.splits)
  define listed where "listed = map fst (list_blobs (''input/'' @ job_id) s)
                   @ map fst (list_blobs (''output/'' @ job_id) s)"
  obtain s1 r where d: "delete_blobs listed s = (s1, r)"
    by (cases "delete_blobs listed s")
  have "db s1 = db s"
    using delete_blobs_db [of listed s] d by simp
  then show "map_option chunks_total (db (fst (delete_job job_id s)) k)
     = map_option chunks_total (db s k)"
    unfolding delete_job_def Let_def listed_def [symmetric] d
    by (auto simp: doc_update_def split: option.splits)
qed


lemma handle_keeps_total:
  assumes "\<not> is_ingest_of job_id r"
  shows "map_option chunks_total (db (handle r s) job_id) = map_option chunks_total (db s job_id)"
proof (cases r)
  case (Ingest env job_id')
  with assms have "job_id \<noteq> job_id'" by auto
  then show ?thesis
    by (simp add: Ingest ingest_video_db_other)
qed (simp_all add: chunks_total_preserved)

lemma handle_all_keeps_total:
  assumes "\<forall>r \<in> set reqs. \<not> is_ingest_of job_id r"
  shows "map_option chunks_total (db (handle_all reqs s) job_id)
           = map_option chunks_total (db s job_id)"
  using assms
proof (induction reqs arbitrary: s)
  case Nil
  then show ?case by simp
next
  case (Cons r reqs)
  then show ?case
    by (simp add: handle_keeps_total)
qed

lemma ingest_video_trace:
  "\<exists>new. trace (fst (ingest_video env job_id s)) = trace s @ new \<and>
     (\<forall>n. snd (ingest_video env job_id s) = Inr (RespDispatched n) \<longrightarrow>
        (\<exists>original planned tasks.
           blob_get (input_path job_id ''original.mp4'') s = Some original \<and>
           (((\<exists>d. probe_duration env original = Some d \<and> 0 < d \<and> d < 300) \<and>
             planned = [(''chunk_000.mp4'', original)]) \<or>
            (\<not> (\<exists>d. probe_duration env original = Some d \<and> 0 < d \<and> d < 300) \<and>
             (\<exists>generated_files.
                segment env job_id original = Some generated_files \<and>
                planned = map (\<lambda>f. (clean_name job_id (fst f), snd f))
                            (sort_key fst generated_files)))) \<and>
           length planned = n \<and>
           tasks = map (\<lambda>(i, c). TaskCreated job_id c i)
                     (filter (\<lambda>(i, c). create_task_ok env job_id i)
                        (zip [0..<n] (map fst planned))) \<and>
           new = StatusWrite job_id CHUNKING
                 # map (\<lambda>cb. BlobPut (input_path job_id (fst cb)) (snd cb)) planned
                 @ [TotalWrite job_id (int n)] @ tasks \<and>
           total_writes job_id new = [int n] \<and>
           (\<forall>c \<in> fst ` set planned.
              blob_get (input_path job_id c) (fst (ingest_video env job_id s))
                = map_of (rev planned) c) \<and>
           map_option chunks_total (db (fst (ingest_video env job_id s)) job_id) = Some (int n))) \<and>
     ((\<forall>n. snd (ingest_video env job_id s) \<noteq> Inr (RespDispatched n)) \<longrightarrow>
        total_writes job_id new = [] \<and> (\<forall>e \<in> set new. \<not> is_task e))"
proof -
  from ingest_video_cases [of s job_id env]
  consider
    (missing) "ingest_video env job_id s = (s, Inl NotFound)"
  | (failed) j where "ingest_video env job_id s =
          (s\<lparr>db := (db s)(job_id \<mapsto>
                  j\<lparr>status := FAILED, error_message := Some ''Input video not found''\<rparr>),
             trace := trace s @ [StatusWrite job_id CHUNKING, StatusWrite job_id FAILED]\<rparr>,
           Inr RespError)"
  | (raised) j e where "ingest_video env job_id s =
          (s\<lparr>db := (db s)(job_id \<mapsto> j\<lparr>status := CHUNKING\<rparr>),
             trace := trace s @ [StatusWrite job_id CHUNKING]\<rparr>, Inl e)"
  | (dispatched) j original s2 chunks where
      "db s job_id = Some j"
      "blob_get (input_path job_id ''original.mp4'') s = Some original"
      "plan_chunks env job_id original
          (s\<lparr>db := (db s)(job_id \<mapsto> j\<lparr>status := CHUNKING\<rparr>),
             trace := trace s @ [StatusWrite job_id CHUNKING]\<rparr>) = Inr (s2, chunks)"
      "ingest_video env job_id s =
          (dispatch env job_id (zip [0..<length chunks] chunks)
             (s2\<lparr>db := (db s2)(job_id \<mapsto>
                      j\<lparr>status := CHUNKING, chunks_total := int (length chunks)\<rparr>),
                 trace := trace s2 @ [TotalWrite job_id (int (length chunks))]\<rparr>),
           Inr (RespDispatched (length chunks)))"
    by blast
  then show ?thesis
  proof cases
    case missing
    then show ?thesis by simp
  next
    case failed
    then show ?thesis by simp
  next
    case raised
    then show ?thesis by simp
  next
    case dispatched
    let ?s1 = "s\<lparr>db := (db s)(job_id \<mapsto> j\<lparr>status := CHUNKING\<rparr>),
                 trace := trace s @ [StatusWrite job_id CHUNKING]\<rparr>"
    let ?n = "length chunks"
    let ?s4 = "dispatch env job_id (zip [0..<?n] chunks)
             (s2\<lparr>db := (db s2)(job_id \<mapsto> j\<lparr>status := CHUNKING, chunks_total := int ?n\<rparr>),
                 trace := trace s2 @ [TotalWrite job_id (int ?n)]\<rparr>)"
    from plan_chunks_result [OF dispatched(3)] obtain planned where
      names: "map fst planned = chunks" and
      how: "((\<exists>d. probe_duration env original = Some d \<and> 0 < d \<and> d < 300) \<and>
             planned = [(''chunk_000.mp4'', original)]) \<or>
            (\<not> (\<exists>d. probe_duration env original = Some d \<and> 0 < d \<and> d < 300) \<and>
             (\<exists>generated_files.
                segment env job_id original = Some generated_files \<and>
                planned = map (\<lambda>f. (clean_name job_id (fst f), snd f))
                            (sort_key fst generated_files)))" and
      t2: "trace s2 = trace ?s1 @ map (\<lambda>cb. BlobPut (input_path job_id (fst cb)) (snd cb)) planned" and
      b2: "\<forall>c. blob_get (input_path job_id c) s2 =
              (case map_of (rev planned) c of
                 Some b \<Rightarrow> Some b
               | None \<Rightarrow> blob_get (input_path job_id c) ?s1)"
      by blast
    have len: "length planned = ?n"
      using names by (metis length_map)
    let ?tasks = "map (\<lambda>(i, c). TaskCreated job_id c i)
                     (filter (\<lambda>(i, c). create_task_ok env job_id i)
                        (zip [0..<?n] (map fst planned)))"
    let ?new = "StatusWrite job_id CHUNKING
                 # map (\<lambda>cb. BlobPut (input_path job_id (fst cb)) (snd cb)) planned
                 @ [TotalWrite job_id (int ?n)] @ ?tasks"
    have tr: "trace ?s4 = trace s @ ?new"
      by (simp add: dispatch_result t2 names)
    have tw: "total_writes job_id ?new = [int ?n]"
      by simp
    have tot: "map_option chunks_total (db ?s4 job_id) = Some (int ?n)"
      by (simp add: dispatch_result)
    have store: "\<forall>c \<in> fst ` set planned.
              blob_get (input_path job_id c) ?s4 = map_of (rev planned) c"
    proof
      fix c assume "c \<in> fst ` set planned"
      then have "c \<in> fst ` set (rev planned)" by simp
      then obtain b where b: "map_of (rev planned) c = Some b"
        by (cases "map_of (rev planned) c") (auto simp only: map_of_eq_None_iff)
      have "blob_get (input_path job_id c) ?s4 = blob_get (input_path job_id c) s2"
        by (simp add: blob_get_def dispatch_result)
      with b b2 show "blob_get (input_path job_id c) ?s4 = map_of (rev planned) c"
        by simp
    qed
    have "\<exists>original' planned' tasks.
           blob_get (input_path job_id ''original.mp4'') s = Some original' \<and>
           (((\<exists>d. probe_duration env original' = Some d \<and> 0 < d \<and> d < 300) \<and>
             planned' = [(''chunk_000.mp4'', original')]) \<or>
            (\<not> (\<exists>d. probe_duration env original' = Some d \<and> 0 < d \<and> d < 300) \<and>
             (\<exists>generated_files.
                segment env job_id original' = Some generated_files \<and>
                planned' = map (\<lambda>f. (clean_name job_id (fst f), snd f))
                            (sort_key fst generated_files)))) \<and>
           length planned' = ?n \<and>
           tasks = map (\<lambda>(i, c). TaskCreated job_id c i)
                     (filter (\<lambda>(i, c). create_task_ok env job_id i)
                        (zip [0..<?n] (map fst planned'))) \<and>
           ?new = StatusWrite job_id CHUNKING
                 # map (\<lambda>cb. BlobPut (input_path job_id (fst cb)) (snd cb)) planned'
                 @ [TotalWrite job_id (int ?n)] @ tasks \<and>
           total_writes job_id ?new = [int ?n] \<and>
           (\<forall>c \<in> fst ` set planned'.
              blob_get (input_path job_id c) ?s4 = map_of (rev planned') c) \<and>
           map_option chunks_total (db ?s4 job_id) = Some (int ?n)"
      using dispatched(2) how len tw store tot
      by (intro exI [of _ original] exI [of _ planned] exI [of _ ?tasks] conjI refl)
    then show ?thesis
      unfolding dispatched(4) using tr by (intro exI [of _ ?new]) auto
  qed
qed

lemma ingest_video_dispatches:
  assumes "db s job_id = Some j"
    and "blob_get (input_path job_id ''original.mp4'') s = Some original"
    and "(\<exists>d. probe_duration env original = Some d \<and> 0 < d \<and> d < 300) \<or>
         segment env job_id original \<noteq> None"
  shows "\<exists>n. snd (ingest_video env job_id s) = Inr (RespDispatched n)"
  using ingest_video_cases [of s job_id env] assms
  by (elim disjE exE conjE) auto

text \<open>
  Claim C4.  An ingest run that plans chunks (the job document and the uploaded video
  exist, and the segmenter, when it is run, succeeds) dispatches, and every run that
  dispatches appends to the trace, in this order: the status write, one upload for
  every planned chunk with that chunk's bytes (the whole video on the bypass, the
  segment file's content on the split), exactly one write of \<open>chunks_total\<close>, equal to
  the number of planned chunks, and only then the tasks the queue accepted, and nothing
  else; at the end of the run the bucket holds, under each planned chunk's name, the
  bytes uploaded for it.  A run that does not dispatch writes no \<open>chunks_total\<close> and
  submits no task, so no task is ever submitted before the write.  After the run no
  request other than a new ingest run of the same job changes the job's
  \<open>chunks_total\<close>, whatever requests follow, for whatever jobs, in whatever order.
\<close>

theorem total_written_once_before_dispatch:
  "(\<exists>new. trace (fst (ingest_video env job_id s)) = trace s @ new \<and>
     (\<forall>n. snd (ingest_video env job_id s) = Inr (RespDispatched n) \<longrightarrow>
        (\<exists>original planned tasks.
           blob_get (input_path job_id ''original.mp4'') s = Some original \<and>
           (((\<exists>d. probe_duration env original = Some d \<and> 0 < d \<and> d < 300) \<and>
             planned = [(''chunk_000.mp4'', original)]) \<or>
            (\<not> (\<exists>d. probe_duration env original = Some d \<and> 0 < d \<and> d < 300) \<and>
             (\<exists>generated_files.
                segment env job_id original = Some generated_files \<and>
                planned = map (\<lambda>f. (clean_name job_id (fst f), snd f))
                            (sort_key fst generated_files)))) \<and>
           length planned = n \<and>
           tasks = map (\<lambda>(i, c). TaskCreated job_id c i)
                     (filter (\<lambda>(i, c). create_task_ok env job_id i)
                        (zip [0..<n] (map fst planned))) \<and>
           new = StatusWrite job_id CHUNKING
                 # map (\<lambda>cb. BlobPut (input_path job_id (fst cb)) (snd cb)) planned
                 @ [TotalWrite job_id (int n)] @ tasks \<and>
           total_writes job_id new = [int n] \<and>
           (\<forall>c \<in> fst ` set planned.
              blob_get (input_path job_id c) (fst (ingest_video env job_id s))
                = map_of (rev planned) c) \<and>
           map_option chunks_total (db (fst (ingest_video env job_id s)) job_id) = Some (int n))) \<and>
     ((\<forall>n. snd (ingest_video env job_id s) \<noteq> Inr (RespDispatched n)) \<longrightarrow>
        total_writes job_id new = [] \<and> (\<forall>e \<in> set new. \<not> is_task e))) \<and>
   ((\<exists>j original.
       db s job_id = Some j \<and>
       blob_get (input_path job_id ''original.mp4'') s = Some original \<and>
       ((\<exists>d. probe_duration env original = Some d \<and> 0 < d \<and> d < 300) \<or>
        segment env job_id original \<noteq> None)) \<longrightarrow>
    (\<exists>n. snd (ingest_video env job_id s) = Inr (RespDispatched n))) \<and>
   (\<forall>reqs.
      (\<forall>r \<in> set reqs. \<not> is_ingest_of job_id r) \<longrightarrow>
      map_option chunks_total (db (handle_all reqs (fst (ingest_video env job_id s))) job_id)
        = map_option chunks_total (db (fst (ingest_video env job_id s)) job_id))"
proof (intro conjI)
  show "\<exists>new. trace (fst (ingest_video env job_id s)) = trace s @ new \<and>
     (\<forall>n. snd (ingest_video env job_id s) = Inr (RespDispatched n) \<longrightarrow>
        (\<exists>original planned tasks.
           blob_get (input_path job_id ''original.mp4'') s = Some original \<and>
           (((\<exists>d. probe_duration env original = Some d \<and> 0 < d \<and> d < 300) \<and>
             planned = [(''chunk_000.mp4'', original)]) \<or>
            (\<not> (\<exists>d. probe_duration env original = Some d \<and> 0 < d \<and> d < 300) \<and>
             (\<exists>generated_files.
                segment env job_id original = Some generated_files \<and>
                planned = map (\<lambda>f. (clean_name job_id (fst f), snd f))
                            (sort_key fst generated_files)))) \<and>
           length planned = n \<and>
           tasks = map (\<lambda>(i, c). TaskCreated job_id c i)
                     (filter (\<lambda>(i, c). create_task_ok env job_id i)
                        (zip [0..<n] (map fst planned))) \<and>
           new = StatusWrite job_id CHUNKING
                 # map (\<lambda>cb. BlobPut (input_path job_id (fst cb)) (snd cb)) planned
                 @ [TotalWrite job_id (int n)] @ tasks \<and>
           total_writes job_id new = [int n] \<and>
           (\<forall>c \<in> fst ` set planned.
              blob_get (input_path job_id c) (fst (ingest_video env job_id s))
                = map_of (rev planned) c) \<and>
           map_option chunks_total (db (fst (ingest_video env job_id s)) job_id) = Some (int n))) \<and>
     ((\<forall>n. snd (ingest_video env job_id s) \<noteq> Inr (RespDispatched n)) \<longrightarrow>
        total_writes job_id new = [] \<and> (\<forall>e \<in> set new. \<not> is_task e))"
    by (rule ingest_video_trace)
  show "(\<exists>j original.
       db s job_id = Some j \<and>
       blob_get (input_path job_id ''original.mp4'') s = Some original \<and>
       ((\<exists>d. probe_duration env original = Some d \<and> 0 < d \<and> d < 300) \<or>
        segment env job_id original \<noteq> None)) \<longrightarrow>
    (\<exists>n. snd (ingest_video env job_id s) = Inr (RespDispatched n))"
    using ingest_video_dispatches [of s job_id _ _ env] by blast
  show "\<forall>reqs.
      (\<forall>r \<in> set reqs. \<not> is_ingest_of job_id r) \<longrightarrow>
      map_option chunks_total (db (handle_all reqs (fst (ingest_video env job_id s))) job_id)
        = map_option chunks_total (db (fst (ingest_video env job_id s)) job_id)"
    using handle_all_keeps_total [of _ job_id "fst (ingest_video env job_id s)"] by blast
qed

theorem total_written_once_before_dispatch_witness:
  "snd (ingest_video demo_orchestrator ''j1'' queued_system) = Inr (RespDispatched 1) \<and>
   trace (fst (ingest_video demo_orchestrator ''j1'' queued_system)) =
     [StatusWrite ''j1'' CHUNKING, BlobPut (input_path ''j1'' ''chunk_000.mp4'') [9],
      TotalWrite ''j1'' 1, TaskCreated ''j1'' ''chunk_000.mp4'' 0] \<and>
   blob_get (input_path ''j1'' ''chunk_000.mp4'')
     (fst (ingest_video demo_orchestrator ''j1'' queued_system)) = Some [9] \<and>
   map_option chunks_total
     (db (handle_all
            [ProcessChunk demo_worker ''j1'' ''chunk_000.mp4'',
             Ingest demo_orchestrator ''j2'', Stitch demo_orchestrator ''j1'', Delete ''j1'']
            (fst (ingest_video demo_orchestrator ''j1'' queued_system))) ''j1'') = Some 1"
proof -
  let ?run = "ingest_video demo_orchestrator ''j1'' queued_system"
  let ?reqs = "[ProcessChunk demo_worker ''j1'' ''chunk_000.mp4'',
             Ingest demo_orchestrator ''j2'', Stitch demo_orchestrator ''j1'', Delete ''j1'']"
  note main = total_written_once_before_dispatch [of demo_orchestrator "''j1''" queued_system]
  have doc: "db queued_system ''j1''
      = Some (demo_job\<lparr>status := QUEUED, chunks_total := 0, chunks_completed := 0\<rparr>)"
    by (simp add: queued_system_def)
  have video: "blob_get (input_path ''j1'' ''original.mp4'') queued_system = Some [9]"
    by (simp add: queued_system_def blob_get_def input_path_def)
  have probe: "probe_duration demo_orchestrator [9] = Some 120"
    by (simp add: demo_orchestrator_def)
  have ok: "create_task_ok demo_orchestrator ''j1'' 0"
    by (simp add: demo_orchestrator_def)
  have "\<exists>j original.
       db queued_system ''j1'' = Some j \<and>
       blob_get (input_path ''j1'' ''original.mp4'') queued_system = Some original \<and>
       ((\<exists>d. probe_duration demo_orchestrator original = Some d \<and> 0 < d \<and> d < 300) \<or>
        segment demo_orchestrator ''j1'' original \<noteq> None)"
    using doc video probe by auto
  then obtain n where n: "snd ?run = Inr (RespDispatched n)"
    using main [THEN conjunct2, THEN conjunct1] by blast
  from main [THEN conjunct1] obtain new where
    tr: "trace (fst ?run) = trace queued_system @ new" and
    disp: "\<forall>n. snd ?run = Inr (RespDispatched n) \<longrightarrow>
        (\<exists>original planned tasks.
           blob_get (input_path ''j1'' ''original.mp4'') queued_system = Some original \<and>
           (((\<exists>d. probe_duration demo_orchestrator original = Some d \<and> 0 < d \<and> d < 300) \<and>
             planned = [(''chunk_000.mp4'', original)]) \<or>
            (\<not> (\<exists>d. probe_duration demo_orchestrator original = Some d \<and> 0 < d \<and> d < 300) \<and>
             (\<exists>generated_files.
                segment demo_orchestrator ''j1'' original = Some generated_files \<and>
                planned = map (\<lambda>f. (clean_name ''j1'' (fst f), snd f))
                            (sort_key fst generated_files)))) \<and>
           length planned = n \<and>
           tasks = map (\<lambda>(i, c). TaskCreated ''j1'' c i)
                     (filter (\<lambda>(i, c). create_task_ok demo_orchestrator ''j1'' i)
                        (zip [0..<n] (map fst planned))) \<and>
           new = StatusWrite ''j1'' CHUNKING
                 # map (\<lambda>cb. BlobPut (input_path ''j1'' (fst cb)) (snd cb)) planned
                 @ [TotalWrite ''j1'' (int n)] @ tasks \<and>
           total_writes ''j1'' new = [int n] \<and>
           (\<forall>c \<in> fst ` set planned.
              blob_get (input_path ''j1'' c) (fst ?run) = map_of (rev planned) c) \<and>
           map_option chunks_total (db (fst ?run) ''j1'') = Some (int n))"
    by (elim exE conjE) (rule that)
  from disp [rule_format, OF n] obtain original planned tasks where
    orig: "blob_get (input_path ''j1'' ''original.mp4'') queued_system = Some original" and
    how: "((\<exists>d. probe_duration demo_orchestrator original = Some d \<and> 0 < d \<and> d < 300) \<and>
             planned = [(''chunk_000.mp4'', original)]) \<or>
            (\<not> (\<exists>d. probe_duration demo_orchestrator original = Some d \<and> 0 < d \<and> d < 300) \<and>
             (\<exists>generated_files.
                segment demo_orchestrator ''j1'' original = Some generated_files \<and>
                planned = map (\<lambda>f. (clean_name ''j1'' (fst f), snd f))
                            (sort_key fst generated_files)))" and
    len: "length planned = n" and
    tasks: "tasks = map (\<lambda>(i, c). TaskCreated ''j1'' c i)
                     (filter (\<lambda>(i, c). create_task_ok demo_orchestrator ''j1'' i)
                        (zip [0..<n] (map fst planned)))" and
    new: "new = StatusWrite ''j1'' CHUNKING
                 # map (\<lambda>cb. BlobPut (input_path ''j1'' (fst cb)) (snd cb)) planned
                 @ [TotalWrite ''j1'' (int n)] @ tasks" and
    tw: "total_writes ''j1'' new = [int n]" and
    store: "\<forall>c \<in> fst ` set planned.
              blob_get (input_path ''j1'' c) (fst ?run) = map_of (rev planned) c" and
    tot: "map_option chunks_total (db (fst ?run) ''j1'') = Some (int n)"
    by (elim exE conjE) (rule that)
  have o: "original = [9]"
    using orig video by simp
  have p: "planned = [(''chunk_000.mp4'', [9])]"
    using how unfolding o probe by simp
  have n1: "n = 1"
    using len p by simp
  have "\<forall>r \<in> set ?reqs. \<not> is_ingest_of ''j1'' r"
    by simp
  then have after: "map_option chunks_total (db (handle_all ?reqs (fst ?run)) ''j1'')
      = map_option chunks_total (db (fst ?run) ''j1'')"
    using main [THEN conjunct2, THEN conjunct2] by blast
  have t0: "trace queued_system = []"
    by (simp add: queued_system_def)
  have c1: "snd ?run = Inr (RespDispatched 1)"
    using n n1 by simp
  have c2: "trace (fst ?run) =
     [StatusWrite ''j1'' CHUNKING, BlobPut (input_path ''j1'' ''chunk_000.mp4'') [9],
      TotalWrite ''j1'' 1, TaskCreated ''j1'' ''chunk_000.mp4'' 0]"
    unfolding tr new tasks p n1 t0 using ok by simp
  have c3: "blob_get (input_path ''j1'' ''chunk_000.mp4'') (fst ?run) = Some [9]"
    using store unfolding p by simp
  have c4: "map_option chunks_total (db (handle_all ?reqs (fst ?run)) ''j1'') = Some 1"
    unfolding after tot n1 by simp
  from c1 c2 c3 c4 show ?thesis
    by (intro conjI)
qed

section \<open>Stitching: selection and order\<close>

lemma digit_char_0: "digit_char 0 = CHR ''0''"
  by code_simp

lemma digit_char_less:
  "a < 10 \<Longrightarrow> b < 10 \<Longrightarrow> digit_char a < digit_char b \<longleftrightarrow> a < b"
  by (simp add: digit_char_def less_char_def)

lemma digit_char_inj:
  "a < 10 \<Longrightarrow> b < 10 \<Longrightarrow> digit_char a = digit_char b \<longleftrightarrow> a = b"
  using digit_char_less [of a b] digit_char_less [of b a]
  by (metis linorder_neq_iff order_less_irrefl)

lemma decimal_small: "n < 10 \<Longrightarrow> decimal n = [digit_char n]"
  by (subst decimal.simps) simp

lemma decimal_two: "10 \<le> n \<Longrightarrow> n < 100 \<Longrightarrow> decimal n = [digit_char (n div 10), digit_char (n mod 10)]"
  by (subst decimal.simps) (simp add: decimal_small)

lemma decimal_three:
  "100 \<le> n \<Longrightarrow> n < 1000 \<Longrightarrow>
   decimal n = [digit_char (n div 100), digit_char (n div 10 mod 10), digit_char (n mod 10)]"
  by (subst decimal.simps) (simp add: decimal_two div_mult2_eq [symmetric])

lemma pad3_digits:
  assumes "n < 1000"
  shows "pad3 n = [digit_char (n div 100), digit_char (n div 10 mod 10), digit_char (n mod 10)]"
proof -
  consider "n < 10" | "10 \<le> n" "n < 100" | "100 \<le> n"
    by linarith
  then show ?thesis
  proof cases
    case 1
    then show ?thesis
      by (simp add: pad3_def decimal_small digit_char_0 [symmetric] numeral_3_eq_3)
  next
    case 2
    then show ?thesis
      by (simp add: pad3_def decimal_two digit_char_0 [symmetric])
  next
    case 3
    with assms show ?thesis
      by (simp add: pad3_def decimal_three)
  qed
qed

lemma three_digits:
  fixes i :: nat
  shows "i = 100 * (i div 100) + 10 * (i div 10 mod 10) + i mod 10"
proof -
  have "i = 10 * (i div 10) + i mod 10"
    by simp
  moreover have "i div 10 = 10 * (i div 10 div 10) + i div 10 mod 10"
    by simp
  moreover have "i div 10 div 10 = i div 100"
    by (simp add: div_mult2_eq [symmetric])
  ultimately show ?thesis
    by linarith
qed

lemma tens_digits:
  fixes i :: nat
  shows "i div 10 = 10 * (i div 100) + i div 10 mod 10"
proof -
  have "i div 10 = 10 * (i div 10 div 10) + i div 10 mod 10"
    by simp
  moreover have "i div 10 div 10 = i div 100"
    by (simp add: div_mult2_eq [symmetric])
  ultimately show ?thesis
    by simp
qed

lemma digits_lex:
  fixes i j :: nat
  assumes "i < j"
  shows "i div 100 < j div 100 \<or>
        (i div 100 = j div 100 \<and>
          (i div 10 mod 10 < j div 10 mod 10 \<or>
           (i div 10 mod 10 = j div 10 mod 10 \<and> i mod 10 < j mod 10)))"
proof (cases "i div 100 = j div 100")
  case False
  have "i div 100 \<le> j div 100"
    using assms by (simp add: div_le_mono)
  with False show ?thesis by simp
next
  case a: True
  show ?thesis
  proof (cases "i div 10 mod 10 = j div 10 mod 10")
    case b: True
    have "i mod 10 < j mod 10"
      using assms three_digits [of i] three_digits [of j] a b by linarith
    with a b show ?thesis by simp
  next
    case False
    have "i div 10 \<le> j div 10"
      using assms by (simp add: div_le_mono)
    then have "i div 10 mod 10 \<le> j div 10 mod 10"
      using a tens_digits [of i] tens_digits [of j] by linarith
    with False a show ?thesis by simp
  qed
qed

lemma pad3_mono:
  assumes "i < j" and "j < 1000"
  shows "pad3 i < pad3 j"
proof -
  have d: "i div 100 < 10" "i div 10 mod 10 < 10" "i mod 10 < 10"
          "j div 100 < 10" "j div 10 mod 10 < 10" "j mod 10 < 10"
    using assms by simp_all
  have pi: "pad3 i = [digit_char (i div 100), digit_char (i div 10 mod 10), digit_char (i mod 10)]"
    using assms by (simp add: pad3_digits)
  have pj: "pad3 j = [digit_char (j div 100), digit_char (j div 10 mod 10), digit_char (j mod 10)]"
    using assms by (simp add: pad3_digits)
  from digits_lex [OF assms(1)] show ?thesis
    unfolding pi pj using d
    by (auto simp: digit_char_less digit_char_inj)
qed

lemma common_prefix_less: "(p @ a :: string) < p @ b \<longleftrightarrow> a < b"
  by (induction p) auto

lemma equal_length_less_append:
  "length a = length b \<Longrightarrow> (a :: string) < b \<Longrightarrow> a @ s < b @ t"
  by (induction a b rule: list_induct2) auto

lemma length_pad3: "n < 1000 \<Longrightarrow> length (pad3 n) = 3"
  by (simp add: pad3_digits)

lemma chunk_name_mono:
  assumes "i < j" and "j < 1000"
  shows "chunk_name_of i < chunk_name_of j"
proof -
  have "pad3 i @ ''.mp4'' < pad3 j @ ''.mp4''"
    using assms by (intro equal_length_less_append pad3_mono) (simp_all add: length_pad3)
  then show ?thesis
    unfolding chunk_name_of_def by (simp only: common_prefix_less)
qed

lemma sorted_map_upt:
  fixes f :: "nat \<Rightarrow> 'a :: linorder"
  assumes "\<And>i j. i < j \<Longrightarrow> j < n \<Longrightarrow> f i < f j"
  shows "sorted (map f [0..<n]) \<and> distinct (map f [0..<n])"
  using assms
proof (induction n)
  case 0
  then show ?case by simp
next
  case (Suc n)
  have "sorted (map f [0..<n]) \<and> distinct (map f [0..<n])"
    using Suc.IH Suc.prems by simp
  moreover have "\<forall>i < n. f i < f n"
    using Suc.prems by simp
  ultimately show ?case
    by (auto simp: sorted_append less_imp_le)
qed

lemma filter_same_key:
  "distinct (map f xs) \<Longrightarrow> k \<in> set xs \<Longrightarrow> filter (\<lambda>x. f k = f x) xs = [k]"
proof (induction xs)
  case Nil
  then show ?case by simp
next
  case (Cons x xs)
  show ?case
  proof (cases "k = x")
    case True
    have "filter (\<lambda>y. f x = f y) xs = []"
      using Cons.prems by (auto simp: filter_empty_conv)
    with True show ?thesis by simp
  next
    case False
    with Cons.prems have kxs: "k \<in> set xs" and "f x \<notin> f ` set xs"
      by auto
    then have "f k \<noteq> f x"
      by (metis imageI)
    with Cons kxs show ?thesis by auto
  qed
qed

lemma sort_key_unique:
  assumes "mset xs = mset ys" and "sorted (map f ys)" and "distinct (map f ys)"
  shows "sort_key f xs = ys"
proof (rule properties_for_sort_key)
  show "mset ys = mset xs" using assms(1) by simp
  show "sorted (map f ys)" by fact
  fix k assume k: "k \<in> set ys"
  have "mset (map f xs) = mset (map f ys)"
    using assms(1) by (metis mset_map)
  then have dx: "distinct (map f xs)"
    using assms(3) by (metis mset_eq_imp_distinct_iff)
  have kx: "k \<in> set xs"
    using k assms(1) by (metis mset_eq_setD)
  show "filter (\<lambda>x. f k = f x) ys = filter (\<lambda>x. f k = f x) xs"
    by (simp add: filter_same_key [OF assms(3) k] filter_same_key [OF dx kx])
qed

lemma py_in_middle: "py_in sub (pre @ sub @ post)"
proof (induction pre)
  case Nil
  show ?case
  proof (cases "sub @ post")
    case Nil
    then show ?thesis by simp
  next
    case (Cons c cs)
    have "prefix sub (sub @ post)" by simp
    then show ?thesis
      unfolding Cons append_Nil by simp
  qed
next
  case (Cons p pre)
  then show ?case by simp
qed

lemma is_chunk_blob_output: "is_chunk_blob (output_path job_id (chunk_name_of i))"
proof -
  have "py_in ''chunk_'' ((''output/'' @ job_id @ ''/'') @ ''chunk_'' @ (pad3 i @ ''.mp4''))"
    by (rule py_in_middle)
  moreover have "suffix ''.mp4'' (output_path job_id (chunk_name_of i))"
    unfolding output_path_def chunk_name_of_def
    by (metis append.assoc suffixI)
  ultimately show ?thesis
    by (simp add: is_chunk_blob_def endswith_def output_path_def chunk_name_of_def)
qed

lemma output_path_mono:
  assumes "i < j" and "j < 1000"
  shows "output_path job_id (chunk_name_of i) < output_path job_id (chunk_name_of j)"
proof -
  have "(''output/'' @ job_id @ ''/'') @ chunk_name_of i < (''output/'' @ job_id @ ''/'') @ chunk_name_of j"
    using chunk_name_mono [OF assms] by (simp only: common_prefix_less)
  then show ?thesis by (simp add: output_path_def)
qed

lemma segment_path_mono:
  assumes "i < j" and "j < 1000"
  shows "segment_path job_id i < segment_path job_id j"
proof -
  have "(''/tmp/'' @ job_id @ ''_'') @ chunk_name_of i < (''/tmp/'' @ job_id @ ''_'') @ chunk_name_of j"
    using chunk_name_mono [OF assms] by (simp only: common_prefix_less)
  then show ?thesis by (simp add: segment_path_def)
qed

lemma chunk_blobs_in_planner_order:
  assumes n: "n \<le> 1000"
    and perm: "mset (blobs s) =
                 mset (map (\<lambda>i. (output_path job_id (chunk_name_of i), content i)) [0..<n] @ strays)"
    and strays: "\<forall>b \<in> set strays.
                   \<not> (prefix (''output/'' @ job_id @ ''/'') (fst b) \<and> is_chunk_blob (fst b))"
  shows "chunk_blobs job_id s = map (\<lambda>i. (output_path job_id (chunk_name_of i), content i)) [0..<n]"
proof -
  let ?expected = "map (\<lambda>i. (output_path job_id (chunk_name_of i), content i)) [0..<n]"
  let ?P = "\<lambda>b :: string \<times> bytes. prefix (''output/'' @ job_id @ ''/'') (fst b)"
  let ?Q = "\<lambda>b :: string \<times> bytes. is_chunk_blob (fst b)"
  have "\<forall>b \<in> set ?expected. ?P b"
    by (auto simp: output_path_def)
  then have p: "filter ?P ?expected = ?expected"
    by (simp only: filter_id_conv)
  have "\<forall>b \<in> set ?expected. ?Q b"
    by (auto simp: is_chunk_blob_output)
  then have "filter ?Q ?expected = ?expected"
    by (simp only: filter_id_conv)
  with p have keep: "filter ?Q (filter ?P ?expected) = ?expected"
    by simp
  have drop: "filter ?Q (filter ?P strays) = []"
    using strays by (auto simp: filter_empty_conv)
  have "mset (filter ?Q (filter ?P (blobs s))) = mset (filter ?Q (filter ?P (?expected @ strays)))"
    using perm by (simp only: mset_filter)
  also have "\<dots> = mset ?expected"
    using keep drop by simp
  finally have m: "mset (filter ?Q (filter ?P (blobs s))) = mset ?expected" .
  have "map fst ?expected = map (\<lambda>i. output_path job_id (chunk_name_of i)) [0..<n]"
    by (simp add: o_def)
  moreover have "sorted (map (\<lambda>i. output_path job_id (chunk_name_of i)) [0..<n]) \<and>
                 distinct (map (\<lambda>i. output_path job_id (chunk_name_of i)) [0..<n])"
    using n by (intro sorted_map_upt output_path_mono) simp_all
  ultimately have "sorted (map fst ?expected)" "distinct (map fst ?expected)"
    by (simp_all add: o_def)
  from sort_key_unique [OF m this] show ?thesis
    by (simp add: chunk_blobs_def list_blobs_def)
qed

lemma slash_not_digit: "d < 10 \<Longrightarrow> digit_char d \<noteq> CHR ''/''"
proof -
  assume "d < 10"
  then have "CHR ''/'' < digit_char d"
    by (simp add: digit_char_def less_char_def)
  then show ?thesis by auto
qed

lemma no_slash_in_chunk_name:
  assumes "i < 1000"
  shows "CHR ''/'' \<notin> set (chunk_name_of i)"
proof -
  have "i div 100 < 10" "i div 10 mod 10 < 10" "i mod 10 < 10"
    using assms by simp_all
  then have "digit_char (i div 100) \<noteq> CHR ''/''" "digit_char (i div 10 mod 10) \<noteq> CHR ''/''"
    "digit_char (i mod 10) \<noteq> CHR ''/''"
    by (simp_all add: slash_not_digit)
  then show ?thesis
    by (auto simp: chunk_name_of_def pad3_digits [OF assms])
qed

lemma length_chunk_name: "i < 1000 \<Longrightarrow> length (chunk_name_of i) = 13"
  by (simp add: chunk_name_of_def length_pad3)

lemma basename_after_slash:
  assumes "CHR ''/'' \<notin> set name"
  shows "basename (dir @ CHR ''/'' # name) = name"
proof -
  have "takeWhile (\<lambda>c. c \<noteq> CHR ''/'') (rev name @ CHR ''/'' # rev dir) = rev name"
    using assms by (subst takeWhile_append2) auto
  then show ?thesis
    by (simp add: basename_def)
qed

lemma py_replace_short: "length s < length old \<Longrightarrow> py_replace old new s = s"
proof (induction s)
  case Nil
  then show ?case by simp
next
  case (Cons c cs)
  then have "\<not> prefix old (c # cs)"
    by (auto dest: prefix_length_le)
  with Cons show ?case by simp
qed

lemma py_replace_leading:
  assumes "old \<noteq> []" and "length s < length old"
  shows "py_replace old [] (old @ s) = s"
proof -
  obtain c cs where oc: "old @ s = c # cs"
    using assms(1) by (cases "old @ s") auto
  have p: "prefix old (c # cs)"
    by (simp add: oc [symmetric])
  have d: "drop (length old) (c # cs) = s"
    by (simp add: oc [symmetric])
  have "py_replace old [] (c # cs) = py_replace old [] s"
    using py_replace.simps(2) [of old "[]" c cs] assms(1) p d by simp
  then show ?thesis
    unfolding oc using py_replace_short [OF assms(2)] by simp
qed

lemma clean_segment_name:
  assumes "i < 1000" and "CHR ''/'' \<notin> set job_id" and "13 \<le> length job_id"
  shows "clean_name job_id (segment_path job_id i) = chunk_name_of i"
proof -
  have "CHR ''/'' \<notin> set (job_id @ ''_'' @ chunk_name_of i)"
    using assms(2) no_slash_in_chunk_name [OF assms(1)] by simp
  then have "basename (''/tmp'' @ CHR ''/'' # (job_id @ ''_'' @ chunk_name_of i))
               = job_id @ ''_'' @ chunk_name_of i"
    by (rule basename_after_slash)
  then have b: "basename (segment_path job_id i) = (job_id @ ''_'') @ chunk_name_of i"
    by (simp add: segment_path_def)
  have "py_replace (job_id @ ''_'') [] ((job_id @ ''_'') @ chunk_name_of i) = chunk_name_of i"
    using assms(3) by (intro py_replace_leading) (simp_all add: length_chunk_name [OF assms(1)])
  then show ?thesis
    by (simp only: clean_name_def b)
qed

lemma plan_chunks_in_index_order:
  assumes n: "n \<le> 1000"
    and job: "CHR ''/'' \<notin> set job_id" "13 \<le> length job_id"
    and route: "\<not> (\<exists>d. probe_duration env original = Some d \<and> 0 < d \<and> d < 300)"
    and seg: "segment env job_id original = Some generated_files"
    and perm: "mset generated_files = mset (map (\<lambda>i. (segment_path job_id i, content i)) [0..<n])"
  shows "\<exists>s'. plan_chunks env job_id original s = Inr (s', map chunk_name_of [0..<n])"
proof -
  let ?segs = "map (\<lambda>i. (segment_path job_id i, content i)) [0..<n]"
  have "sorted (map (\<lambda>i. segment_path job_id i) [0..<n]) \<and>
        distinct (map (\<lambda>i. segment_path job_id i) [0..<n])"
    using n by (intro sorted_map_upt segment_path_mono) simp_all
  then have "sorted (map fst ?segs)" "distinct (map fst ?segs)"
    by (simp_all add: o_def)
  from sort_key_unique [OF perm this] have sorted_files: "sort_key fst generated_files = ?segs" .
  have names: "map (clean_name job_id \<circ> fst) ?segs = map chunk_name_of [0..<n]"
    using n job by (simp add: clean_segment_name)
  from upload_chunks_result [of job_id ?segs s "[]"] obtain s' where
    up: "upload_chunks job_id ?segs s [] = (s', map (clean_name job_id \<circ> fst) ?segs)"
    by auto
  have split: "\<not> ((case probe_duration env original of None \<Rightarrow> 0 | Some d \<Rightarrow> d) > 0 \<and>
              (case probe_duration env original of None \<Rightarrow> 0 | Some d \<Rightarrow> d) < CHUNK_DURATION)"
    using route by (auto simp: CHUNK_DURATION_def split: option.splits)
  have "plan_chunks env job_id original s = Inr (s', map chunk_name_of [0..<n])"
    using split seg
    by (auto simp: plan_chunks_def Let_def sorted_files up names [symmetric]
          simp del: map_map)
  then show ?thesis by blast
qed

lemma concat_inputs_distinct:
  assumes "distinct (map (\<lambda>b. basename (fst b)) bs)"
  shows "concat_inputs bs = map snd bs"
proof -
  let ?local = "map (\<lambda>b. (''/tmp/'' @ basename (fst b), snd b)) bs"
  have "map fst ?local = map (\<lambda>n. ''/tmp/'' @ n) (map (\<lambda>b. basename (fst b)) bs)"
    by (simp add: o_def)
  moreover have "distinct (map (\<lambda>n. ''/tmp/'' @ n) (map (\<lambda>b. basename (fst b)) bs))"
    using assms by (subst distinct_map) (auto intro: inj_onI)
  ultimately have "distinct (map fst (rev ?local))"
    by (simp only: rev_map [symmetric] distinct_rev)
  then have "map_of (rev ?local) (fst lf) = Some (snd lf)" if "lf \<in> set ?local" for lf
    using that by (intro map_of_is_SomeI) auto
  then have "map (\<lambda>lf. case map_of (rev ?local) (fst lf) of Some content \<Rightarrow> content | None \<Rightarrow> snd lf)
               ?local = map snd ?local"
    by (intro map_cong refl) simp
  then show ?thesis
    by (simp add: concat_inputs_def Let_def o_def)
qed

lemma basename_output_path:
  assumes "i < 1000"
  shows "basename (output_path job_id (chunk_name_of i)) = chunk_name_of i"
proof -
  have "basename ((''output/'' @ job_id) @ CHR ''/'' # chunk_name_of i) = chunk_name_of i"
    using no_slash_in_chunk_name [OF assms] by (rule basename_after_slash)
  then show ?thesis by (simp add: output_path_def)
qed

lemma concat_inputs_planned:
  assumes "n \<le> 1000"
  shows "concat_inputs (map (\<lambda>i. (output_path job_id (chunk_name_of i), content i)) [0..<n])
           = map content [0..<n]"
proof -
  let ?bs = "map (\<lambda>i. (output_path job_id (chunk_name_of i), content i)) [0..<n]"
  have eq: "map (\<lambda>b. basename (fst b)) ?bs = map chunk_name_of [0..<n]"
    using assms by (simp add: basename_output_path)
  have "sorted (map chunk_name_of [0..<n]) \<and> distinct (map chunk_name_of [0..<n])"
    using assms by (intro sorted_map_upt chunk_name_mono) simp_all
  then have "distinct (map (\<lambda>b. basename (fst b)) ?bs)"
    unfolding eq by simp
  from concat_inputs_distinct [OF this] show ?thesis
    by (simp add: o_def)
qed

lemma stitch_video_final:
  assumes "db s job_id = Some j"
    and "concat_files env (concat_inputs (chunk_blobs job_id s)) = Some out"
  shows "blob_get (output_path job_id ''final.mp4'') (fst (stitch_video env job_id s)) = Some out \<and>
         (\<exists>url. snd (stitch_video env job_id s) = Inr (RespCompleted url))"
proof -
  let ?s1 = "s\<lparr>db := (db s)(job_id \<mapsto> j\<lparr>status := STITCHING\<rparr>),
               trace := trace s @ [StatusWrite job_id STITCHING]\<rparr>"
  have s1: "doc_update job_id (\<lambda>j. j\<lparr>status := STITCHING\<rparr>) (StatusWrite job_id STITCHING) s = Inr ?s1"
    using assms(1) by (simp add: doc_update_def)
  have cb: "chunk_blobs job_id ?s1 = chunk_blobs job_id s"
    by (simp add: chunk_blobs_def list_blobs_def)
  show ?thesis
    unfolding stitch_video_def s1
    using assms(2)
    by (simp add: cb Let_def doc_update_def blob_put_def blob_get_def update_conv')
qed


lemma upt_3: "[0..<3] = [0, 1, 2]"
  by (simp add: upt_rec)


text \<open>
  The order of the stitcher's list.  The stitcher takes, of the objects under the job's
  output prefix, exactly those whose name passes the chunk test of the code (the name contains \<^verbatim>\<open>chunk_\<close> and
  ends in \<^verbatim>\<open>.mp4\<close>), and concatenates them sorted by name.  So when the bucket holds, in
  any order, the processed chunks \<^verbatim>\<open>chunk_000.mp4\<close>, \<^verbatim>\<open>chunk_001.mp4\<close>, \<open>\<dots>\<close> of a job of
  at most 1000 chunks together with any objects that fail the test or lie outside
  the prefix, the stitcher's list is the chunks in ascending index order, ffmpeg is given
  their contents in that order, and what it makes of them is stored as the job's
  \<^verbatim>\<open>final.mp4\<close>.  That is the order in which the planner emits
  them: given the segment files \<^verbatim>\<open>/tmp/{job_id}_chunk_%03d.mp4\<close> in any order, for a job
  id without a slash and of at least 13 characters (the gateway's are UUIDs of 36), the
  planner emits \<^verbatim>\<open>chunk_000.mp4\<close>, \<^verbatim>\<open>chunk_001.mp4\<close>, \<open>\<dots>\<close> in ascending index order.
\<close>

theorem stitch_order_is_planner_order:
  "set (map fst (chunk_blobs job_id s)) =
     {name \<in> fst ` set (blobs s). prefix (''output/'' @ job_id @ ''/'') name \<and> is_chunk_blob name} \<and>
   sorted (map fst (chunk_blobs job_id s)) \<and>
   (\<forall>n content strays.
      n \<le> 1000 \<and>
      mset (blobs s) =
        mset (map (\<lambda>i. (output_path job_id (chunk_name_of i), content i)) [0..<n] @ strays) \<and>
      (\<forall>b \<in> set strays.
         \<not> (prefix (''output/'' @ job_id @ ''/'') (fst b) \<and> is_chunk_blob (fst b))) \<longrightarrow>
      chunk_blobs job_id s
        = map (\<lambda>i. (output_path job_id (chunk_name_of i), content i)) [0..<n] \<and>
      concat_inputs (chunk_blobs job_id s) = map content [0..<n] \<and>
      (\<forall>env j out.
         db s job_id = Some j \<and> concat_files env (map content [0..<n]) = Some out \<longrightarrow>
         blob_get (output_path job_id ''final.mp4'') (fst (stitch_video env job_id s)) = Some out)) \<and>
   (\<forall>n env original generated_files content s0.
      n \<le> 1000 \<and> CHR ''/'' \<notin> set job_id \<and> 13 \<le> length job_id \<and>
      \<not> (\<exists>d. probe_duration env original = Some d \<and> 0 < d \<and> d < 300) \<and>
      segment env job_id original = Some generated_files \<and>
      mset generated_files = mset (map (\<lambda>i. (segment_path job_id i, content i)) [0..<n]) \<longrightarrow>
      (\<exists>s'. plan_chunks env job_id original s0 = Inr (s', map chunk_name_of [0..<n])))"
proof (intro conjI allI impI)
  show "set (map fst (chunk_blobs job_id s)) =
     {name \<in> fst ` set (blobs s). prefix (''output/'' @ job_id @ ''/'') name \<and> is_chunk_blob name}"
    by (auto simp: chunk_blobs_def list_blobs_def)
  show "sorted (map fst (chunk_blobs job_id s))"
    by (simp add: chunk_blobs_def)
next
  fix n and content :: "nat \<Rightarrow> bytes" and strays
  assume "n \<le> 1000 \<and>
      mset (blobs s) =
        mset (map (\<lambda>i. (output_path job_id (chunk_name_of i), content i)) [0..<n] @ strays) \<and>
      (\<forall>b \<in> set strays.
         \<not> (prefix (''output/'' @ job_id @ ''/'') (fst b) \<and> is_chunk_blob (fst b)))"
  then show "chunk_blobs job_id s
        = map (\<lambda>i. (output_path job_id (chunk_name_of i), content i)) [0..<n]"
    using chunk_blobs_in_planner_order [of n s job_id content strays] by blast
next
  fix n and content :: "nat \<Rightarrow> bytes" and strays
  assume "n \<le> 1000 \<and>
      mset (blobs s) =
        mset (map (\<lambda>i. (output_path job_id (chunk_name_of i), content i)) [0..<n] @ strays) \<and>
      (\<forall>b \<in> set strays.
         \<not> (prefix (''output/'' @ job_id @ ''/'') (fst b) \<and> is_chunk_blob (fst b)))"
  then have "n \<le> 1000" and
    "chunk_blobs job_id s
        = map (\<lambda>i. (output_path job_id (chunk_name_of i), content i)) [0..<n]"
    using chunk_blobs_in_planner_order [of n s job_id content strays] by blast+
  then show "concat_inputs (chunk_blobs job_id s) = map content [0..<n]"
    using concat_inputs_planned [of n job_id content] by simp
next
  fix n and content :: "nat \<Rightarrow> bytes" and strays and env :: orchestrator_env and j out
  assume "n \<le> 1000 \<and>
      mset (blobs s) =
        mset (map (\<lambda>i. (output_path job_id (chunk_name_of i), content i)) [0..<n] @ strays) \<and>
      (\<forall>b \<in> set strays.
         \<not> (prefix (''output/'' @ job_id @ ''/'') (fst b) \<and> is_chunk_blob (fst b)))"
  then have "n \<le> 1000" and
    "chunk_blobs job_id s
        = map (\<lambda>i. (output_path job_id (chunk_name_of i), content i)) [0..<n]"
    using chunk_blobs_in_planner_order [of n s job_id content strays] by blast+
  then have inputs: "concat_inputs (chunk_blobs job_id s) = map content [0..<n]"
    using concat_inputs_planned [of n job_id content] by simp
  assume "db s job_id = Some j \<and> concat_files env (map content [0..<n]) = Some out"
  then show "blob_get (output_path job_id ''final.mp4'') (fst (stitch_video env job_id s)) = Some out"
    using stitch_video_final [of s job_id j env out] inputs by simp
next
  fix n and env :: orchestrator_env and original generated_files
    and content :: "nat \<Rightarrow> bytes" and s0
  assume "n \<le> 1000 \<and> CHR ''/'' \<notin> set job_id \<and> 13 \<le> length job_id \<and>
      \<not> (\<exists>d. probe_duration env original = Some d \<and> 0 < d \<and> d < 300) \<and>
      segment env job_id original = Some generated_files \<and>
      mset generated_files = mset (map (\<lambda>i. (segment_path job_id i, content i)) [0..<n])"
  then show "\<exists>s'. plan_chunks env job_id original s0 = Inr (s', map chunk_name_of [0..<n])"
    using plan_chunks_in_index_order [of n job_id env original generated_files content s0]
    by blast
qed

theorem stitch_order_is_planner_order_witness:
  "chunk_blobs demo_uuid processed_system =
     [(output_path demo_uuid (chunk_name_of 0), [1]),
      (output_path demo_uuid (chunk_name_of 1), [2]),
      (output_path demo_uuid (chunk_name_of 2), [3])] \<and>
   concat_inputs (chunk_blobs demo_uuid processed_system) = [[1], [2], [3]] \<and>
   blob_get (output_path demo_uuid ''final.mp4'')
     (fst (stitch_video demo_orchestrator demo_uuid processed_system)) = Some [1, 2, 3] \<and>
   map_sum id snd (plan_chunks unprobed_orchestrator demo_uuid [9] queued_system) =
     Inr [chunk_name_of 0, chunk_name_of 1, chunk_name_of 2]"
proof -
  let ?content = "\<lambda>i::nat. [Suc i]"
  let ?strays = "[(output_path demo_uuid ''final.mp4'', [0::nat]),
                  (input_path demo_uuid ''original.mp4'', [9::nat])]"
  have bucket: "mset (blobs processed_system) =
      mset (map (\<lambda>i. (output_path demo_uuid (chunk_name_of i), ?content i)) [0..<3] @ ?strays)"
    by (simp add: processed_system_def upt_3)
  have stray: "\<forall>b \<in> set ?strays.
      \<not> (prefix (''output/'' @ demo_uuid @ ''/'') (fst b) \<and> is_chunk_blob (fst b))"
    by (simp add: output_path_def input_path_def demo_uuid_def is_chunk_blob_def)
  have job: "CHR ''/'' \<notin> set demo_uuid \<and> 13 \<le> length demo_uuid"
    by (simp add: demo_uuid_def)
  have probe: "\<not> (\<exists>d. probe_duration unprobed_orchestrator [9] = Some d \<and> 0 < d \<and> d < 300)"
    by (simp add: unprobed_orchestrator_def)
  have seg: "segment unprobed_orchestrator demo_uuid [9] =
      Some [(segment_path demo_uuid 2, [3]), (segment_path demo_uuid 0, [1]),
            (segment_path demo_uuid 1, [2])]"
    by (simp add: unprobed_orchestrator_def demo_orchestrator_def)
  have files: "mset [(segment_path demo_uuid 2, [3]), (segment_path demo_uuid 0, [1]),
            (segment_path demo_uuid 1, [2::nat])] =
      mset (map (\<lambda>i. (segment_path demo_uuid i, ?content i)) [0..<3])"
    by (simp add: upt_3)
  note main = stitch_order_is_planner_order [of demo_uuid processed_system]
  have "3 \<le> (1000::nat) \<and>
      mset (blobs processed_system) =
        mset (map (\<lambda>i. (output_path demo_uuid (chunk_name_of i), ?content i)) [0..<3] @ ?strays) \<and>
      (\<forall>b \<in> set ?strays.
         \<not> (prefix (''output/'' @ demo_uuid @ ''/'') (fst b) \<and> is_chunk_blob (fst b)))"
    using bucket stray by simp
  then have a: "chunk_blobs demo_uuid processed_system =
      map (\<lambda>i. (output_path demo_uuid (chunk_name_of i), ?content i)) [0..<3] \<and>
      concat_inputs (chunk_blobs demo_uuid processed_system) = map ?content [0..<3] \<and>
      (\<forall>env j out.
         db processed_system demo_uuid = Some j \<and>
         concat_files env (map ?content [0..<3]) = Some out \<longrightarrow>
         blob_get (output_path demo_uuid ''final.mp4'')
           (fst (stitch_video env demo_uuid processed_system)) = Some out)"
    by (rule main [THEN conjunct2, THEN conjunct2, THEN conjunct1, rule_format,
                   of 3 ?content ?strays])
  have "3 \<le> (1000::nat) \<and> CHR ''/'' \<notin> set demo_uuid \<and> 13 \<le> length demo_uuid \<and>
      \<not> (\<exists>d. probe_duration unprobed_orchestrator [9] = Some d \<and> 0 < d \<and> d < 300) \<and>
      segment unprobed_orchestrator demo_uuid [9] =
        Some [(segment_path demo_uuid 2, [3]), (segment_path demo_uuid 0, [1]),
              (segment_path demo_uuid 1, [2])] \<and>
      mset [(segment_path demo_uuid 2, [3]), (segment_path demo_uuid 0, [1]),
            (segment_path demo_uuid 1, [2::nat])] =
        mset (map (\<lambda>i. (segment_path demo_uuid i, ?content i)) [0..<3])"
    using job probe seg files by simp
  then have b: "\<exists>s'. plan_chunks unprobed_orchestrator demo_uuid [9] queued_system =
      Inr (s', map chunk_name_of [0..<3])"
    by (rule main [THEN conjunct2, THEN conjunct2, THEN conjunct2, rule_format,
                   of 3 unprobed_orchestrator "[9]" _ ?content queued_system])
  have "db processed_system demo_uuid
        = Some (demo_job\<lparr>chunks_total := 3, chunks_completed := 3\<rparr>) \<and>
      concat_files demo_orchestrator (map ?content [0..<3]) = Some [1, 2, 3]"
    by (simp add: processed_system_def demo_orchestrator_def upt_3)
  with a b show ?thesis
    by (auto simp: upt_3)
qed


subsection \<open>Stray objects\<close>

lemma strip_prefix_append:
  "strip_prefix p s = Some r \<Longrightarrow> s = p @ r"
  by (induction p s rule: strip_prefix.induct) (auto split: if_splits)

text \<open>Every name of the chunk pattern lies under the output prefix and passes the test of
  the code: the stitcher drops no chunk.\<close>

lemma spec_chunk_pattern_passes_filter:
  assumes "spec_chunk_pattern job_id name"
  shows "prefix (''output/'' @ job_id @ ''/'') name \<and> is_chunk_blob name"
proof -
  from assms obtain rest where
    r: "strip_prefix (''output/'' @ job_id @ ''/chunk_'') name = Some rest"
    by (auto simp: spec_chunk_pattern_def split: option.splits)
  with assms obtain d1 d2 d3 where "rest = d1 # d2 # d3 # ''.mp4''"
    by (auto simp: spec_chunk_pattern_def split: list.splits)
  with strip_prefix_append [OF r]
  have n: "name = (''output/'' @ job_id @ ''/'') @ ''chunk_'' @ ([d1, d2, d3] @ ''.mp4'')"
    by simp
  have "py_in ''chunk_'' name"
    unfolding n by (rule py_in_middle)
  moreover have "suffix ''.mp4'' name"
    unfolding n by (metis append.assoc suffixI)
  moreover have "prefix (''output/'' @ job_id @ ''/'') name"
    unfolding n by simp
  ultimately show ?thesis
    by (simp add: is_chunk_blob_def endswith_def)
qed

lemma stray_chunk_blobs:
  "chunk_blobs ''j1'' stray_system =
     [(''output/j1/chunk_000.mp4'', [1]),
      (''output/j1/chunk_000.mp4.bak.mp4'', [66]),
      (''output/j1/chunk_001.mp4'', [2]),
      (''output/j1/old/chunk_001.mp4'', [77])]"
  by (simp add: chunk_blobs_def list_blobs_def stray_system_def is_chunk_blob_def endswith_def
        suffix_to_prefix)

text \<open>
  Claim C7.  The stitcher does not select only the artifacts whose names match the chunk
  pattern.  Its filter, commented \<^verbatim>\<open>Filter for chunk_XXX.mp4 files only\<close>, tests that the
  whole object name contains \<^verbatim>\<open>chunk_\<close> and ends in \<^verbatim>\<open>.mp4\<close>.  On a bucket that holds,
  under the output prefix of job \<^verbatim>\<open>j1\<close>, the processed chunks \<^verbatim>\<open>chunk_000.mp4\<close> and
  \<^verbatim>\<open>chunk_001.mp4\<close> (contents 1 and 2) and the stray objects \<^verbatim>\<open>chunk_000.mp4.bak.mp4\<close>
  and \<^verbatim>\<open>old/chunk_001.mp4\<close> (contents 66 and 77), only the two chunks match the pattern,
  yet the stitcher selects all four objects.  It downloads each to \<^verbatim>\<open>/tmp\<close> under its base
  name, so the stray \<^verbatim>\<open>old/chunk_001.mp4\<close> overwrites the chunk of index 1: ffmpeg is
  given the contents 1, 66, 77, 77 and the stored \<^verbatim>\<open>final.mp4\<close> is their concatenation,
  where the planner's order of the chunks gives 1, 2.
\<close>

theorem stitcher_takes_stray_objects:
  "filter (spec_chunk_pattern ''j1'') (map fst (blobs stray_system)) =
     [''output/j1/chunk_001.mp4'', ''output/j1/chunk_000.mp4''] \<and>
   map fst (chunk_blobs ''j1'' stray_system) =
     [''output/j1/chunk_000.mp4'', ''output/j1/chunk_000.mp4.bak.mp4'',
      ''output/j1/chunk_001.mp4'', ''output/j1/old/chunk_001.mp4''] \<and>
   concat_inputs (chunk_blobs ''j1'' stray_system) = [[1], [66], [77], [77]] \<and>
   blob_get (output_path ''j1'' ''final.mp4'')
     (fst (stitch_video demo_orchestrator ''j1'' stray_system)) = Some [1, 66, 77, 77]"
proof -
  have a: "filter (spec_chunk_pattern ''j1'') (map fst (blobs stray_system)) =
     [''output/j1/chunk_001.mp4'', ''output/j1/chunk_000.mp4'']"
    by (simp add: stray_system_def spec_chunk_pattern_def is_digit_def)
  have b: "concat_inputs (chunk_blobs ''j1'' stray_system) = [[1], [66], [77], [77]]"
    unfolding stray_chunk_blobs by (simp add: concat_inputs_def basename_def)
  have doc: "db stray_system ''j1'' = Some (demo_job\<lparr>chunks_total := 2, chunks_completed := 2\<rparr>)"
    by (simp add: stray_system_def)
  have c: "concat_files demo_orchestrator (concat_inputs (chunk_blobs ''j1'' stray_system))
             = Some [1, 66, 77, 77]"
    unfolding b by (simp add: demo_orchestrator_def)
  from stitch_video_final [OF doc c] a b show ?thesis
    by (simp add: stray_chunk_blobs)
qed

end
